theory Spec2Isabelle
  imports Main "HOL-Library.Word" "HOL-Library.Multiset"
begin

unbundle bit_operations_syntax

section \<open>NodeDB: the peer-information store of lokinet\<close>

text \<open>
  A shallow embedding of \<^verbatim>\<open>nodedb.cpp\<close>. The member functions of \<^verbatim>\<open>NodeDB\<close> become
  functions on a record of its data members. \<^verbatim>\<open>router.loop()->call\<close> and
  \<^verbatim>\<open>call_get\<close> run a closure on the single owner loop; the model of a member function is
  the body of the closure it submits. The injected \<^verbatim>\<open>disk\<close> caller receives closures to
  run on another thread; the model records every closure handed to it, as a value, in
  the order of the calls.
\<close>

subsection \<open>Identifiers, time and paths\<close>

text \<open>
  \<^verbatim>\<open>RouterID\<close> and \<^verbatim>\<open>dht::Key_t\<close> are 32-byte buffers. A buffer is modelled as the
  256-bit word whose most significant byte is byte 0 of the buffer, so that the
  byte-wise XOR of two buffers is the XOR of the words and the lexicographic order of the
  byte arrays is the unsigned order of the words.
\<close>

type_synonym RouterID = "256 word"
type_synonym Key_t = "256 word"

text \<open>
  \<^verbatim>\<open>llarp_time_t\<close> is a count of milliseconds held in a signed 64-bit integer: the
  model holds the value of the count, between \<open>- 2 ^ 63\<close> and \<open>2 ^ 63 - 1\<close>. The only
  arithmetic of the code on a count is the addition of the flush interval to the
  deadline; \<open>add_ms\<close> is the 64-bit addition, which wraps around in two's complement
  where the sum leaves the range.
\<close>

type_synonym llarp_time_t = int

definition add_ms :: "llarp_time_t \<Rightarrow> llarp_time_t \<Rightarrow> llarp_time_t" where
  "add_ms a b = (a + b + 2 ^ 63) mod 2 ^ 64 - 2 ^ 63"

text \<open>
  An \<^verbatim>\<open>fs::path\<close> is the sequence of its components; \<^verbatim>\<open>operator/\<close> appends one
  component, and \<^verbatim>\<open>empty()\<close> holds of the path with no component.
\<close>

type_synonym path = "string list"

definition path_append :: "path \<Rightarrow> string \<Rightarrow> path" where
  "path_append p s = p @ [s]"

definition skiplist_subdirs :: string where
  "skiplist_subdirs = ''0123456789abcdef'' @ [CHR 0x00]"

definition RC_FILE_EXT :: string where
  "RC_FILE_EXT = ''.signed''"

definition FlushInterval :: llarp_time_t where
  "FlushInterval = 5 * 60 * 1000"

subsection \<open>Hex encoding (\<^verbatim>\<open>oxenc::to_hex\<close>)\<close>

definition hex_digit :: "nat \<Rightarrow> char" where
  "hex_digit n = ''0123456789abcdef'' ! (n mod 16)"

definition to_hex_byte :: "8 word \<Rightarrow> string" where
  "to_hex_byte b = [hex_digit (unat (drop_bit 4 b)), hex_digit (unat (b AND 15))]"

definition to_hex :: "8 word list \<Rightarrow> string" where
  "to_hex bs = concat (map to_hex_byte bs)"

text \<open>The bytes \<^verbatim>\<open>pubkey.begin() .. pubkey.end()\<close>, byte 0 first.\<close>

definition id_bytes :: "RouterID \<Rightarrow> 8 word list" where
  "id_bytes w = map (\<lambda>i. ucast (drop_bit (8 * (31 - i)) w)) [0..<32]"

text \<open>
  Modelled from the spec: \<^verbatim>\<open>RouterID::ToString\<close> is not defined in the sources.
  The specification names a contact file \<^verbatim>\<open><64-hex-char-identity-key>.signed\<close>, so
  the string form of an identifier is taken to be its hex encoding.
\<close>

definition RouterID_ToString :: "RouterID \<Rightarrow> string" where
  "RouterID_ToString r = to_hex (id_bytes r)"

subsection \<open>Router contacts, entries and the database\<close>

text \<open>
  Of \<^verbatim>\<open>RouterContact\<close> (declared in \<^verbatim>\<open>router_contact.hpp\<close>, not among the sources)
  the code reads the field \<^verbatim>\<open>pubkey\<close> only; everything else the contact holds is the
  value \<open>rest\<close> of a type parameter.
\<close>

record 'a RouterContact =
  pubkey :: RouterID
  rest :: 'a

text \<open>\<^verbatim>\<open>NodeDB::Entry\<close>; the constructor reads the clock once.\<close>

record 'a Entry =
  rc :: "'a RouterContact"
  insertedAt :: llarp_time_t

definition mk_Entry :: "llarp_time_t \<Rightarrow> 'a RouterContact \<Rightarrow> 'a Entry" where
  "mk_Entry time_now_ms value = \<lparr>rc = value, insertedAt = time_now_ms\<rparr>"

text \<open>
  The closures handed to the disk caller: \<^verbatim>\<open>Tick\<close> hands over a copy of all contacts,
  each to be written to its own path; \<^verbatim>\<open>remove_many_from_disk_async\<close> hands over a
  set of files, each to be removed.
\<close>

datatype 'a disk_job =
    WriteContacts "'a RouterContact list"
  | RemoveFiles "path set"

text \<open>
  \<^verbatim>\<open>entries\<close> is a \<^verbatim>\<open>std::unordered_map<RouterID, Entry>\<close>: an association list
  with distinct keys, in the order in which the map is iterated. The standard leaves
  that order open; every order of every table is such a list.
\<close>

type_synonym 'a NodeMap = "(RouterID \<times> 'a Entry) list"

record 'a NodeDB =
  m_Root :: path
  entries :: "'a NodeMap"
  m_NextFlushAt :: llarp_time_t
  disk :: "'a disk_job list"

subsection \<open>Operations of \<^verbatim>\<open>std::unordered_map\<close>\<close>

definition find_entry :: "'a NodeMap \<Rightarrow> RouterID \<Rightarrow> 'a Entry option" where
  "find_entry es pk = map_of es pk"

definition erase :: "RouterID \<Rightarrow> 'a NodeMap \<Rightarrow> 'a NodeMap" where
  "erase pk es = filter (\<lambda>item. fst item \<noteq> pk) es"

text \<open>
  \<^verbatim>\<open>emplace\<close> inserts nothing when the key is present. Where a new element comes in
  the order of iteration is open; the model puts it last.
\<close>

definition emplace :: "RouterID \<Rightarrow> 'a Entry \<Rightarrow> 'a NodeMap \<Rightarrow> 'a NodeMap" where
  "emplace pk e es = (if find_entry es pk = None then es @ [(pk, e)] else es)"

subsection \<open>The shard path\<close>

definition get_path_by_pubkey :: "'a NodeDB \<Rightarrow> RouterID \<Rightarrow> path" where
  "get_path_by_pubkey db pk =
     (let hexString = to_hex (id_bytes pk);
          fname = RouterID_ToString pk;
          skiplistDir = [] @ [hexString ! 0];
          fname = fname @ RC_FILE_EXT
      in path_append (path_append (m_Root db) skiplistDir) fname)"

subsection \<open>The file system and the capabilities of a contact\<close>

datatype fnode = RegularFile "8 word list" | Directory

type_synonym filesystem = "path \<rightharpoonup> fnode"

definition is_regular_file :: "filesystem \<Rightarrow> path \<Rightarrow> bool" where
  "is_regular_file fs f = (case fs f of Some (RegularFile bs) \<Rightarrow> True | _ \<Rightarrow> False)"

text \<open>\<^verbatim>\<open>for (fpath : purge) fs::remove(fpath)\<close>, over a \<^verbatim>\<open>std::set\<close>.\<close>

definition fs_remove_all :: "path set \<Rightarrow> filesystem \<Rightarrow> filesystem" where
  "fs_remove_all purge fs = (\<lambda>f. if f \<in> purge then None else fs f)"

text \<open>
  \<^verbatim>\<open>fs::path::extension\<close>: of the last component, the part from its rightmost period
  on; empty for the components \<^verbatim>\<open>.\<close> and \<^verbatim>\<open>..\<close>, and a period in first position
  does not start an extension.
\<close>

fun from_last_dot :: "string \<Rightarrow> string option" where
  "from_last_dot [] = None"
| "from_last_dot (c # cs) =
     (case from_last_dot cs of
        Some e \<Rightarrow> Some e
      | None \<Rightarrow> if c = CHR ''.'' then Some (c # cs) else None)"

definition extension :: "path \<Rightarrow> string" where
  "extension p =
     (case p of
        [] \<Rightarrow> []
      | _ \<Rightarrow>
        (let fn = last p in
         if fn = ''.'' \<or> fn = ''..'' then []
         else (case fn of
                 [] \<Rightarrow> []
               | c # cs \<Rightarrow> (case from_last_dot cs of None \<Rightarrow> [] | Some e \<Rightarrow> e))))"

text \<open>
  The member functions of \<^verbatim>\<open>RouterContact\<close> that the code calls are declared in
  \<^verbatim>\<open>router_contact.hpp\<close>, which is not among the sources: they are parameters of the
  model. \<open>Read\<close> gives the contact decoded from a file, if the file decodes;
  \<open>OtherIsNewer a b\<close> is \<^verbatim>\<open>a.OtherIsNewer(b)\<close>.
\<close>

record 'a RouterContact_ops =
  Read :: "filesystem \<Rightarrow> path \<Rightarrow> 'a RouterContact option"
  FromOurNetwork :: "'a RouterContact \<Rightarrow> bool"
  IsExpired :: "'a RouterContact \<Rightarrow> llarp_time_t \<Rightarrow> bool"
  VerifySignature :: "'a RouterContact \<Rightarrow> bool"
  OtherIsNewer :: "'a RouterContact \<Rightarrow> 'a RouterContact \<Rightarrow> bool"

subsection \<open>The serialized access gate\<close>

text \<open>
  \<^verbatim>\<open>loop()->call(f)\<close> runs a closure that may change the database;
  \<^verbatim>\<open>loop()->call_get(f)\<close> runs the closure of a \<^verbatim>\<open>const\<close> member function and
  returns its value to the caller, with the database as it is after the call.
\<close>

definition call :: "('a NodeDB \<Rightarrow> 'a NodeDB) \<Rightarrow> 'a NodeDB \<Rightarrow> 'a NodeDB" where
  "call f db = f db"

definition call_get :: "('a NodeDB \<Rightarrow> 'r) \<Rightarrow> 'a NodeDB \<Rightarrow> 'r \<times> 'a NodeDB" where
  "call_get f db = (f db, db)"

subsection \<open>\<^verbatim>\<open>NodeDB::Tick\<close>\<close>

text \<open>The injected disk caller: the job is queued for the disk thread.\<close>

definition disk_call :: "'a disk_job \<Rightarrow> 'a NodeDB \<Rightarrow> 'a NodeDB" where
  "disk_call job db = db\<lparr>disk := disk db @ [job]\<rparr>"

definition Tick :: "llarp_time_t \<Rightarrow> 'a NodeDB \<Rightarrow> 'a NodeDB" where
  "Tick now db =
     (if m_NextFlushAt db = 0 then db
      else if now > m_NextFlushAt db then
        (let db1 = db\<lparr>m_NextFlushAt := add_ms (m_NextFlushAt db) FlushInterval\<rparr>;
             copy = map (\<lambda>item. rc (snd item)) (entries db1)
         in disk_call (WriteContacts copy) db1)
      else db)"

subsection \<open>\<^verbatim>\<open>NodeDB::load_from_disk\<close>\<close>

record 'a load_state =
  ls_entries :: "'a NodeMap"
  ls_purge :: "path set"
  ls_clock :: nat

text \<open>
  The visitor passed to \<^verbatim>\<open>IterDir\<close>. \<open>time_now_ms n\<close> is the value of the
  \<open>n\<close>-th reading of the clock during the call; \<open>ls_clock\<close> counts the readings.
  The visitor reads the clock for the expiry check, and the constructor of \<^verbatim>\<open>Entry\<close>
  reads it again.
\<close>

definition load_visit ::
  "'a RouterContact_ops \<Rightarrow> (nat \<Rightarrow> llarp_time_t) \<Rightarrow> filesystem \<Rightarrow>
     'a load_state \<Rightarrow> path \<Rightarrow> 'a load_state" where
  "load_visit ops time_now_ms fs s f =
     (if \<not> (is_regular_file fs f \<and> extension f = RC_FILE_EXT) then s
      else
        (case Read ops fs f of
           None \<Rightarrow> s\<lparr>ls_purge := insert f (ls_purge s)\<rparr>
         | Some c \<Rightarrow>
             if \<not> FromOurNetwork ops c then s
             else if IsExpired ops c (time_now_ms (ls_clock s)) then
               s\<lparr>ls_purge := insert f (ls_purge s), ls_clock := Suc (ls_clock s)\<rparr>
             else if VerifySignature ops c then
               s\<lparr>ls_entries :=
                    emplace (pubkey c) (mk_Entry (time_now_ms (Suc (ls_clock s))) c)
                      (ls_entries s),
                  ls_clock := Suc (Suc (ls_clock s))\<rparr>
             else
               s\<lparr>ls_purge := insert f (ls_purge s), ls_clock := Suc (ls_clock s)\<rparr>))"

text \<open>
  The files visited, in order: for each character of \<^verbatim>\<open>skiplist_subdirs\<close> but the
  terminating zero, what \<^verbatim>\<open>IterDir\<close> lists in that subdirectory. \<^verbatim>\<open>util::IterDir\<close>
  is declared in \<^verbatim>\<open>util/fs.hpp\<close>, not among the sources: the listing is a parameter.
\<close>

definition load_files :: "(filesystem \<Rightarrow> path \<Rightarrow> path list) \<Rightarrow> filesystem \<Rightarrow> path \<Rightarrow> path list" where
  "load_files IterDir fs root =
     concat (map (\<lambda>ch. IterDir fs (path_append root ([] @ [ch])))
                 (filter (\<lambda>ch. ch \<noteq> CHR 0x00) skiplist_subdirs))"

definition load_scan ::
  "'a RouterContact_ops \<Rightarrow> (nat \<Rightarrow> llarp_time_t) \<Rightarrow> filesystem \<Rightarrow>
     'a load_state \<Rightarrow> path list \<Rightarrow> 'a load_state" where
  "load_scan ops time_now_ms fs s files = foldl (load_visit ops time_now_ms fs) s files"

definition load_from_disk ::
  "'a RouterContact_ops \<Rightarrow> (filesystem \<Rightarrow> path \<Rightarrow> path list) \<Rightarrow> (nat \<Rightarrow> llarp_time_t) \<Rightarrow>
     filesystem \<Rightarrow> 'a NodeDB \<Rightarrow> 'a NodeDB \<times> filesystem" where
  "load_from_disk ops IterDir time_now_ms fs db =
     (if m_Root db = [] then (db, fs)
      else
        (let s = load_scan ops time_now_ms fs
                   \<lparr>ls_entries = entries db, ls_purge = {}, ls_clock = 0\<rparr>
                   (load_files IterDir fs (m_Root db))
         in (db\<lparr>entries := ls_entries s\<rparr>,
             if ls_purge s \<noteq> {} then fs_remove_all (ls_purge s) fs else fs)))"

subsection \<open>Queries\<close>

definition has_router :: "'a NodeDB \<Rightarrow> RouterID \<Rightarrow> bool \<times> 'a NodeDB" where
  "has_router db pk = call_get (\<lambda>this. find_entry (entries this) pk \<noteq> None) db"

definition get_rc :: "'a NodeDB \<Rightarrow> RouterID \<Rightarrow> 'a RouterContact option \<times> 'a NodeDB" where
  "get_rc db pk =
     call_get (\<lambda>this. case find_entry (entries this) pk of
                         None \<Rightarrow> None
                       | Some itr \<Rightarrow> Some (rc itr)) db"

definition num_loaded :: "'a NodeDB \<Rightarrow> nat \<times> 'a NodeDB" where
  "num_loaded db = call_get (\<lambda>this. length (entries this)) db"

subsection \<open>Mutations\<close>

definition remove_many_from_disk_async :: "RouterID set \<Rightarrow> 'a NodeDB \<Rightarrow> 'a NodeDB" where
  "remove_many_from_disk_async remove db =
     (if m_Root db = [] then db
      else
        (let files = get_path_by_pubkey db ` remove
         in disk_call (RemoveFiles files) db))"

definition remove_router :: "RouterID \<Rightarrow> 'a NodeDB \<Rightarrow> 'a NodeDB" where
  "remove_router pk db =
     call (\<lambda>this. remove_many_from_disk_async {pk}
                    (this\<lparr>entries := erase pk (entries this)\<rparr>)) db"

text \<open>
  The loop of \<^verbatim>\<open>remove_stale_rcs\<close> over the map: the entries that stay, and the
  identities collected in \<^verbatim>\<open>removed\<close>.
\<close>

fun stale_loop ::
  "RouterID set \<Rightarrow> llarp_time_t \<Rightarrow> 'a NodeMap \<Rightarrow> RouterID set \<Rightarrow> 'a NodeMap \<times> RouterID set" where
  "stale_loop keep cutoff [] removed = ([], removed)"
| "stale_loop keep cutoff (itr # es) removed =
     (if insertedAt (snd itr) < cutoff \<and> pubkey (rc (snd itr)) \<notin> keep then
        stale_loop keep cutoff es (insert (pubkey (rc (snd itr))) removed)
      else
        (case stale_loop keep cutoff es removed of
           (es', removed') \<Rightarrow> (itr # es', removed')))"

definition remove_stale_rcs :: "RouterID set \<Rightarrow> llarp_time_t \<Rightarrow> 'a NodeDB \<Rightarrow> 'a NodeDB" where
  "remove_stale_rcs keep cutoff db =
     call (\<lambda>this.
        (case stale_loop keep cutoff (entries this) {} of
           (es', removed) \<Rightarrow>
             (let this1 = this\<lparr>entries := es'\<rparr>
              in if removed \<noteq> {} then remove_many_from_disk_async removed this1
                 else this1))) db"

definition put_rc :: "llarp_time_t \<Rightarrow> 'a RouterContact \<Rightarrow> 'a NodeDB \<Rightarrow> 'a NodeDB" where
  "put_rc time_now_ms c db =
     call (\<lambda>this. this\<lparr>entries :=
                     emplace (pubkey c) (mk_Entry time_now_ms c)
                       (erase (pubkey c) (entries this))\<rparr>) db"

definition put_rc_if_newer ::
  "'a RouterContact_ops \<Rightarrow> llarp_time_t \<Rightarrow> 'a RouterContact \<Rightarrow> 'a NodeDB \<Rightarrow> 'a NodeDB" where
  "put_rc_if_newer ops time_now_ms c db =
     call (\<lambda>this.
        (case find_entry (entries this) (pubkey c) of
           None \<Rightarrow>
             this\<lparr>entries := emplace (pubkey c) (mk_Entry time_now_ms c) (entries this)\<rparr>
         | Some itr \<Rightarrow>
             if OtherIsNewer ops (rc itr) c then
               this\<lparr>entries :=
                      emplace (pubkey c) (mk_Entry time_now_ms c)
                        (erase (pubkey c) (entries this))\<rparr>
             else this)) db"

subsection \<open>The XOR metric and the nearest-neighbour queries\<close>

text \<open>
  Modelled from the spec: \<^verbatim>\<open>dht::XorMetric\<close> is declared in \<^verbatim>\<open>dht/kademlia.hpp\<close>,
  which is not among the sources. The distance of two identifiers is their bitwise XOR
  read as an unsigned integer, and the smaller is the closer: the comparator built on
  \<open>us\<close> holds of \<open>left\<close> and \<open>right\<close> when \<open>left\<close> is closer to \<open>us\<close>.
\<close>

definition XorMetric :: "Key_t \<Rightarrow> Key_t \<Rightarrow> Key_t \<Rightarrow> bool" where
  "XorMetric us left right = ((us XOR left) < (us XOR right))"

definition XorMetric_rc :: "Key_t \<Rightarrow> 'a RouterContact \<Rightarrow> 'a RouterContact \<Rightarrow> bool" where
  "XorMetric_rc us left right = ((pubkey left XOR us) < (pubkey right XOR us))"

definition IsZero :: "RouterID \<Rightarrow> bool" where
  "IsZero pk = (pk = 0)"

text \<open>
  Modelled from the spec: \<^verbatim>\<open>NodeDB::VisitAll\<close> is a template of \<^verbatim>\<open>nodedb.hpp\<close>,
  which is not among the sources. It is the linear scan of the table: the visitor is
  called on the contact of every entry, in the order of the map; what the visitor
  captures by reference is threaded through.
\<close>

definition VisitAll :: "('s \<Rightarrow> 'a RouterContact \<Rightarrow> 's) \<Rightarrow> 's \<Rightarrow> 'a NodeDB \<Rightarrow> 's" where
  "VisitAll visit s db = foldl (\<lambda>s item. visit s (rc (snd item))) s (entries db)"

text \<open>A default-constructed contact: the zero key, and \<open>dflt\<close> for the rest.\<close>

definition default_rc :: "'a \<Rightarrow> 'a RouterContact" where
  "default_rc dflt = \<lparr>pubkey = 0, rest = dflt\<rparr>"

definition closest_visit :: "Key_t \<Rightarrow> 'a RouterContact \<Rightarrow> 'a RouterContact \<Rightarrow> 'a RouterContact" where
  "closest_visit location c otherRC =
     (if IsZero (pubkey c) then otherRC
      else if XorMetric location (pubkey otherRC) (pubkey c) then otherRC
      else c)"

definition find_closest_to :: "'a \<Rightarrow> 'a NodeDB \<Rightarrow> Key_t \<Rightarrow> 'a RouterContact \<times> 'a NodeDB" where
  "find_closest_to dflt db location =
     call_get (\<lambda>this. VisitAll (closest_visit location) (default_rc dflt) this) db"

text \<open>
  \<^verbatim>\<open>std::partial_sort(first, middle, last, comp)\<close> puts the smallest
  \<^verbatim>\<open>middle - first\<close> elements, in ascending order, in front; the order of the others
  is unspecified. The model sorts the whole range by insertion.
\<close>

fun insort_by :: "('b \<Rightarrow> 'b \<Rightarrow> bool) \<Rightarrow> 'b \<Rightarrow> 'b list \<Rightarrow> 'b list" where
  "insort_by cmp x [] = [x]"
| "insort_by cmp x (y # ys) = (if cmp y x then y # insort_by cmp x ys else x # y # ys)"

definition partial_sort :: "('b \<Rightarrow> 'b \<Rightarrow> bool) \<Rightarrow> nat \<Rightarrow> 'b list \<Rightarrow> 'b list" where
  "partial_sort cmp middle xs = foldr (insort_by cmp) xs []"

text \<open>
  \<^verbatim>\<open>std::vector::reserve\<close> throws (\<^verbatim>\<open>std::length_error\<close> or
  \<^verbatim>\<open>std::bad_alloc\<close>) when room for the requested number of elements cannot be
  had. Whether it can be had is a parameter: \<open>reserve_pointers n\<close> for \<open>n\<close> pointers to
  contacts, \<open>reserve_contacts n\<close> for \<open>n\<close> contacts.
\<close>

datatype alloc_error = bad_alloc

record allocator =
  reserve_pointers :: "nat \<Rightarrow> bool"
  reserve_contacts :: "nat \<Rightarrow> bool"

definition find_many_closest_to ::
  "allocator \<Rightarrow> 'a NodeDB \<Rightarrow> Key_t \<Rightarrow> 32 word \<Rightarrow>
     (alloc_error + 'a RouterContact list) \<times> 'a NodeDB" where
  "find_many_closest_to alloc db location numRouters =
     call_get (\<lambda>this.
        if \<not> reserve_pointers alloc (length (entries this)) then Inl bad_alloc
        else
          (let all = map (\<lambda>entry. rc (snd entry)) (entries this);
               it_mid = (if unat numRouters < length all then unat numRouters else length all);
               sorted_all = partial_sort (XorMetric_rc location) it_mid all
           in if \<not> reserve_contacts alloc (unat numRouters) then Inl bad_alloc
              else Inr (take it_mid sorted_all))) db"

text \<open>
  The distance of the claims: the bitwise XOR of two identifiers, read as an unsigned
  integer.
\<close>

definition xor_distance :: "Key_t \<Rightarrow> RouterID \<Rightarrow> nat" where
  "xor_distance target pk = unat (pk XOR target)"

subsection \<open>The invariant of the table\<close>

text \<open>
  The keys of an \<^verbatim>\<open>unordered_map\<close> are unique, and every insertion of the code is
  \<^verbatim>\<open>entries.emplace(rc.pubkey, rc)\<close>: an entry is stored under the key of its contact.
\<close>

definition wf_entries :: "'a NodeMap \<Rightarrow> bool" where
  "wf_entries es =
     (distinct (map fst es) \<and> list_all (\<lambda>item. pubkey (rc (snd item)) = fst item) es)"

subsection \<open>An instance of the parameters\<close>

text \<open>
  The model is evaluated on concrete inputs with a small contact type: besides its key a
  contact holds the time of its last update, the flag of its network, the validity of
  its signature and its expiry time. A file of five bytes decodes to a contact.
\<close>

record sample =
  last_updated :: int
  our_net :: bool
  sig_ok :: bool
  expires :: int

definition sample_decode :: "8 word list \<Rightarrow> sample RouterContact option" where
  "sample_decode bs =
     (case bs of
        [k, u, n, g, x] \<Rightarrow>
          Some \<lparr>pubkey = ucast k,
                rest = \<lparr>last_updated = uint u, our_net = (n = 1), sig_ok = (g = 1),
                         expires = uint x\<rparr>\<rparr>
      | _ \<Rightarrow> None)"

definition sample_ops :: "sample RouterContact_ops" where
  "sample_ops =
     \<lparr>Read = (\<lambda>fs f. case fs f of Some (RegularFile bs) \<Rightarrow> sample_decode bs | _ \<Rightarrow> None),
      FromOurNetwork = (\<lambda>c. our_net (rest c)),
      IsExpired = (\<lambda>c now. expires (rest c) \<le> now),
      VerifySignature = (\<lambda>c. sig_ok (rest c)),
      OtherIsNewer = (\<lambda>c other. last_updated (rest c) < last_updated (rest other))\<rparr>"

text \<open>An allocator that has room for fewer than \<open>2 ^ 24\<close> elements.\<close>

definition sample_alloc :: allocator where
  "sample_alloc = \<lparr>reserve_pointers = (\<lambda>n. n < 2 ^ 24), reserve_contacts = (\<lambda>n. n < 2 ^ 24)\<rparr>"

definition sample_rc :: "RouterID \<Rightarrow> int \<Rightarrow> int \<Rightarrow> sample RouterContact" where
  "sample_rc k u x =
     \<lparr>pubkey = k, rest = \<lparr>last_updated = u, our_net = True, sig_ok = True, expires = x\<rparr>\<rparr>"

text \<open>
  A directory listing for a disk all of whose paths are among \<open>known\<close>: the paths
  directly under the directory, in the order of \<open>known\<close>.
\<close>

definition list_dir :: "path list \<Rightarrow> filesystem \<Rightarrow> path \<Rightarrow> path list" where
  "list_dir known fs dir = filter (\<lambda>q. q \<noteq> [] \<and> butlast q = dir \<and> fs q \<noteq> None) known"

text \<open>
  A disk with five contact files: one that does not decode, one of another network, one
  expired at time 100, one with an invalid signature and one that passes every check.
\<close>

definition sample_paths :: "path list" where
  "sample_paths =
     [[''nodedb'', ''0'', ''junk.signed''],
      [''nodedb'', ''1'', ''far.signed''],
      [''nodedb'', ''2'', ''old.signed''],
      [''nodedb'', ''3'', ''bad.signed''],
      [''nodedb'', ''a'', ''good.signed'']]"

definition sample_fs :: filesystem where
  "sample_fs =
     [[''nodedb'', ''0'', ''junk.signed''] \<mapsto> RegularFile [1, 2, 3],
      [''nodedb'', ''1'', ''far.signed''] \<mapsto> RegularFile [6, 1, 0, 1, 200],
      [''nodedb'', ''2'', ''old.signed''] \<mapsto> RegularFile [7, 1, 1, 1, 50],
      [''nodedb'', ''3'', ''bad.signed''] \<mapsto> RegularFile [8, 1, 1, 0, 200],
      [''nodedb'', ''a'', ''good.signed''] \<mapsto> RegularFile [9, 1, 1, 1, 200]]"

text \<open>A disk with two valid contact files of one identity.\<close>

definition twin_paths :: "path list" where
  "twin_paths = [[''nodedb'', ''0'', ''x.signed''], [''nodedb'', ''0'', ''y.signed'']]"

definition twin_fs :: filesystem where
  "twin_fs =
     [[''nodedb'', ''0'', ''x.signed''] \<mapsto> RegularFile [5, 1, 1, 1, 200],
      [''nodedb'', ''0'', ''y.signed''] \<mapsto> RegularFile [5, 2, 1, 1, 200]]"

definition empty_db :: "path \<Rightarrow> 'a NodeDB" where
  "empty_db root = \<lparr>m_Root = root, entries = [], m_NextFlushAt = 0, disk = []\<rparr>"

section \<open>Properties\<close>

subsection \<open>The shard path\<close>

lemma top_byte_less: "unat (drop_bit 248 (w :: 256 word)) < 2 ^ 8"
proof -
  have "unat w < 2 ^ 256"
    using unsigned_less [of w] by simp
  then have "unat w div 2 ^ 248 < 2 ^ 8"
    by (simp add: less_mult_imp_div_less)
  then have "drop_bit 248 (unat w) < 2 ^ 8"
    by (simp only: drop_bit_eq_div)
  then show ?thesis
    by (simp only: unat_drop_bit_eq)
qed

lemma top_nibble: 
  "unat (drop_bit 4 (ucast (drop_bit 248 (w :: 256 word)) :: 8 word)) = unat (drop_bit 252 w)"
proof -
  have "unat (ucast (drop_bit 248 w) :: 8 word) = take_bit 8 (unat (drop_bit 248 w))"
    by (simp add: unsigned_ucast_eq)
  also have "\<dots> = unat (drop_bit 248 w)"
    using top_byte_less [of w] by (simp only: take_bit_nat_eq_self)
  finally have "unat (drop_bit 4 (ucast (drop_bit 248 w) :: 8 word)) =
      drop_bit 4 (unat (drop_bit 248 w))"
    by (simp only: unat_drop_bit_eq)
  also have "\<dots> = unat (drop_bit 252 w)"
    by (simp add: unat_drop_bit_eq)
  finally show ?thesis .
qed

lemma to_hex_first: "to_hex (id_bytes w) ! 0 = hex_digit (unat (drop_bit 252 w))"
  by (simp add: to_hex_def id_bytes_def to_hex_byte_def upt_rec top_nibble)

lemma hex_digit_lower: "hex_digit n \<in> set ''0123456789abcdef''"
  unfolding hex_digit_def by (rule nth_mem) simp

lemma length_to_hex_id: "length (to_hex (id_bytes w)) = 64"
  by (simp add: to_hex_def id_bytes_def to_hex_byte_def length_concat comp_def sum_list_triv)

lemma to_hex_lower: "set (to_hex bs) \<subseteq> set ''0123456789abcdef''"
  using hex_digit_lower by (auto simp: to_hex_def to_hex_byte_def)

text \<open>The shard directory of a path is one of the directories that the loader scans.\<close>

lemma shard_dir_scanned:
  "[to_hex (id_bytes pk) ! 0] \<in>
     set (map (\<lambda>ch. [] @ [ch]) (filter (\<lambda>ch. ch \<noteq> CHR 0x00) skiplist_subdirs))"
  using hex_digit_lower [of "unat (drop_bit 252 pk)"]
  by (auto simp: to_hex_first skiplist_subdirs_def)

lemma get_path_by_pubkey_root:
  "m_Root db' = m_Root db \<Longrightarrow> get_path_by_pubkey db' pk = get_path_by_pubkey db pk"
  by (simp add: get_path_by_pubkey_def)

text \<open>
  C1. The path of an identifier is the root, then the directory named by the first
  character of the identifier's hex encoding (the hex digit of its four leading bits),
  then the file named by the 64 lowercase hex characters of the identifier followed by
  \<^verbatim>\<open>.signed\<close>. It depends on the root and the identifier only: the table, the flush
  deadline and the queued disk jobs do not change it.
\<close>

theorem get_path_by_pubkey_shard_path:
  "get_path_by_pubkey db pk =
     m_Root db @ [[to_hex (id_bytes pk) ! 0], to_hex (id_bytes pk) @ ''.signed'']
   \<and> to_hex (id_bytes pk) ! 0 = hex_digit (unat (drop_bit 252 pk))
   \<and> length (to_hex (id_bytes pk)) = 64
   \<and> set (to_hex (id_bytes pk)) \<subseteq> set ''0123456789abcdef''
   \<and> get_path_by_pubkey (db\<lparr>entries := es, m_NextFlushAt := t, disk := js\<rparr>) pk =
       get_path_by_pubkey db pk"
proof -
  have "get_path_by_pubkey db pk =
      m_Root db @ [[to_hex (id_bytes pk) ! 0], to_hex (id_bytes pk) @ ''.signed'']"
    by (simp add: get_path_by_pubkey_def path_append_def RouterID_ToString_def RC_FILE_EXT_def)
  moreover have "get_path_by_pubkey (db\<lparr>entries := es, m_NextFlushAt := t, disk := js\<rparr>) pk =
      get_path_by_pubkey db pk"
    by (rule get_path_by_pubkey_root) simp
  ultimately show ?thesis
    using to_hex_first [of pk] length_to_hex_id [of pk] to_hex_lower [of "id_bytes pk"]
    by blast
qed

theorem get_path_by_pubkey_shard_path_witness:
  "get_path_by_pubkey
     \<lparr>m_Root = [''var'', ''nodedb''], entries = [], m_NextFlushAt = 0, disk = []\<rparr>
     (0xa123456789abcdef0123456789abcdef0123456789abcdef0123456789abcdef :: 256 word) =
   [''var'', ''nodedb'', ''a'',
    ''a123456789abcdef0123456789abcdef0123456789abcdef0123456789abcdef.signed'']"
proof -
  have hex: "to_hex (id_bytes (0xa123456789abcdef0123456789abcdef0123456789abcdef0123456789abcdef :: 256 word)) =
      ''a123456789abcdef0123456789abcdef0123456789abcdef0123456789abcdef''"
    by code_simp
  show ?thesis
    using get_path_by_pubkey_shard_path
      [of "\<lparr>m_Root = [''var'', ''nodedb''], entries = [], m_NextFlushAt = 0, disk = []\<rparr>"
          "0xa123456789abcdef0123456789abcdef0123456789abcdef0123456789abcdef" "[]" 0 "[]",
       THEN conjunct1]
    by (simp add: hex)
qed

subsection \<open>The map operations\<close>

lemma find_entry_erase:
  "find_entry (erase pk es) k = (if k = pk then None else find_entry es k)"
  by (induction es) (auto simp: find_entry_def erase_def)

lemma find_entry_emplace:
  "find_entry (emplace pk e es) k =
     (if k = pk \<and> find_entry es pk = None then Some e else find_entry es k)"
  by (auto simp: find_entry_def emplace_def map_add_def split: option.splits)

lemma find_entry_None_iff: "find_entry es k = None \<longleftrightarrow> k \<notin> fst ` set es"
  by (simp add: find_entry_def map_of_eq_None_iff)

lemma wf_entries_erase: "wf_entries es \<Longrightarrow> wf_entries (erase pk es)"
  by (simp add: wf_entries_def erase_def distinct_map_filter list_all_iff)

lemma wf_entries_emplace:
  "wf_entries es \<Longrightarrow> pubkey (rc e) = pk \<Longrightarrow> wf_entries (emplace pk e es)"
  by (auto simp: wf_entries_def emplace_def find_entry_None_iff)

subsection \<open>\<^verbatim>\<open>put_rc\<close>\<close>

lemma wf_entries_put_rc: "wf_entries (entries db) \<Longrightarrow> wf_entries (entries (put_rc t c db))"
  by (simp add: put_rc_def call_def wf_entries_erase wf_entries_emplace mk_Entry_def)

lemma find_entry_put_rc:
  "find_entry (entries (put_rc t c db)) =
     (find_entry (entries db))(pubkey c \<mapsto> \<lparr>rc = c, insertedAt = t\<rparr>)"
  by (auto simp: put_rc_def call_def find_entry_emplace find_entry_erase mk_Entry_def fun_eq_iff)

text \<open>
  C9. After \<^verbatim>\<open>put_rc\<close> the table maps the identity key of the contact to the new
  contact with the clock reading of the call as insertion time, whatever was stored
  under that key before; the entries of all other keys, the root, the flush deadline and
  the queue of disk jobs are as before.
\<close>

theorem put_rc_replaces:
  "find_entry (entries (put_rc t c db)) =
     (find_entry (entries db))(pubkey c \<mapsto> \<lparr>rc = c, insertedAt = t\<rparr>)
   \<and> m_Root (put_rc t c db) = m_Root db
   \<and> m_NextFlushAt (put_rc t c db) = m_NextFlushAt db
   \<and> disk (put_rc t c db) = disk db"
  using find_entry_put_rc [of t c db] by (simp add: put_rc_def call_def)

theorem put_rc_replaces_witness:
  "find_entry
     (entries (put_rc 70 \<lparr>pubkey = 5, rest = 2 :: nat\<rparr>
        \<lparr>m_Root = [''db''],
         entries = [(5, \<lparr>rc = \<lparr>pubkey = 5, rest = 1\<rparr>, insertedAt = 10\<rparr>),
                    (9, \<lparr>rc = \<lparr>pubkey = 9, rest = 3\<rparr>, insertedAt = 20\<rparr>)],
         m_NextFlushAt = 0, disk = []\<rparr>)) 5 =
     Some \<lparr>rc = \<lparr>pubkey = 5, rest = 2\<rparr>, insertedAt = 70\<rparr>
   \<and> find_entry
     (entries (put_rc 70 \<lparr>pubkey = 5, rest = 2 :: nat\<rparr>
        \<lparr>m_Root = [''db''],
         entries = [(5, \<lparr>rc = \<lparr>pubkey = 5, rest = 1\<rparr>, insertedAt = 10\<rparr>),
                    (9, \<lparr>rc = \<lparr>pubkey = 9, rest = 3\<rparr>, insertedAt = 20\<rparr>)],
         m_NextFlushAt = 0, disk = []\<rparr>)) 9 =
     Some \<lparr>rc = \<lparr>pubkey = 9, rest = 3\<rparr>, insertedAt = 20\<rparr>"
  using put_rc_replaces [of 70 "\<lparr>pubkey = 5, rest = 2 :: nat\<rparr>"
        "\<lparr>m_Root = [''db''],
         entries = [(5, \<lparr>rc = \<lparr>pubkey = 5, rest = 1\<rparr>, insertedAt = 10\<rparr>),
                    (9, \<lparr>rc = \<lparr>pubkey = 9, rest = 3\<rparr>, insertedAt = 20\<rparr>)],
         m_NextFlushAt = 0, disk = []\<rparr>"]
  by (simp add: find_entry_def)

subsection \<open>\<^verbatim>\<open>Tick\<close>\<close>

lemma Tick_disabled: "m_NextFlushAt db = 0 \<Longrightarrow> Tick now db = db"
  by (simp add: Tick_def)

lemma Ticks_disabled:
  "m_NextFlushAt db = 0 \<Longrightarrow> foldl (\<lambda>d now. Tick now d) db nows = db"
  by (induction nows) (simp_all add: Tick_disabled)

lemma add_ms_in_range: "- (2 ^ 63) \<le> a + b \<Longrightarrow> a + b < 2 ^ 63 \<Longrightarrow> add_ms a b = a + b"
  by (simp add: add_ms_def)

text \<open>Past the range the 64-bit sum wraps around.\<close>

lemma add_ms_wraps: "add_ms 9223372036854675807 300000 = - 9223372036854575809"
  by (simp add: add_ms_def)

text \<open>
  C5. With the deadline at the sentinel \<open>0\<close>, no sequence of ticks changes the database,
  so none hands a job to the disk caller. With another deadline that \<open>now\<close> has passed,
  one tick queues exactly one job, which holds the contact of every entry of the table,
  and adds the flush interval of 300000 milliseconds to the deadline once, however far
  \<open>now\<close> is past it; it changes nothing else. The addition is that of 64-bit counts: for
  a deadline in range whose sum with the interval is below \<open>2 ^ 63\<close>, the new deadline
  is the old one plus 300000.
\<close>

theorem Tick_flush_gating:
  "(m_NextFlushAt db = 0 \<longrightarrow> foldl (\<lambda>d now. Tick now d) db nows = db)
   \<and> (m_NextFlushAt db \<noteq> 0 \<and> m_NextFlushAt db < now \<longrightarrow>
        Tick now db =
          db\<lparr>m_NextFlushAt := add_ms (m_NextFlushAt db) 300000,
             disk := disk db @ [WriteContacts (map (\<lambda>item. rc (snd item)) (entries db))]\<rparr>)
   \<and> (m_NextFlushAt db \<noteq> 0 \<and> m_NextFlushAt db < now
        \<and> - (2 ^ 63) \<le> m_NextFlushAt db \<and> m_NextFlushAt db + 300000 < 2 ^ 63 \<longrightarrow>
        Tick now db =
          db\<lparr>m_NextFlushAt := m_NextFlushAt db + 300000,
             disk := disk db @ [WriteContacts (map (\<lambda>item. rc (snd item)) (entries db))]\<rparr>)"
proof -
  have wrapped: "m_NextFlushAt db \<noteq> 0 \<and> m_NextFlushAt db < now \<longrightarrow>
        Tick now db =
          db\<lparr>m_NextFlushAt := add_ms (m_NextFlushAt db) 300000,
             disk := disk db @ [WriteContacts (map (\<lambda>item. rc (snd item)) (entries db))]\<rparr>"
    by (simp add: Tick_def disk_call_def FlushInterval_def Let_def)
  have "add_ms (m_NextFlushAt db) 300000 = m_NextFlushAt db + 300000"
    if "- (2 ^ 63) \<le> m_NextFlushAt db" and "m_NextFlushAt db + 300000 < 2 ^ 63"
    using that by (intro add_ms_in_range) simp_all
  with wrapped have exact: "m_NextFlushAt db \<noteq> 0 \<and> m_NextFlushAt db < now
        \<and> - (2 ^ 63) \<le> m_NextFlushAt db \<and> m_NextFlushAt db + 300000 < 2 ^ 63 \<longrightarrow>
        Tick now db =
          db\<lparr>m_NextFlushAt := m_NextFlushAt db + 300000,
             disk := disk db @ [WriteContacts (map (\<lambda>item. rc (snd item)) (entries db))]\<rparr>"
    by simp
  from wrapped exact show ?thesis
    using Ticks_disabled [of db nows] by blast
qed

theorem Tick_flush_gating_witness:
  "foldl (\<lambda>d now. Tick now d)
     \<lparr>m_Root = [''db''],
      entries = [(5, \<lparr>rc = \<lparr>pubkey = 5, rest = 1 :: nat\<rparr>, insertedAt = 10\<rparr>)],
      m_NextFlushAt = 0, disk = []\<rparr> [1, 400000, 900000] =
     \<lparr>m_Root = [''db''],
      entries = [(5, \<lparr>rc = \<lparr>pubkey = 5, rest = 1 :: nat\<rparr>, insertedAt = 10\<rparr>)],
      m_NextFlushAt = 0, disk = []\<rparr>
   \<and> Tick 1000000
     \<lparr>m_Root = [''db''],
      entries = [(5, \<lparr>rc = \<lparr>pubkey = 5, rest = 1 :: nat\<rparr>, insertedAt = 10\<rparr>),
                 (9, \<lparr>rc = \<lparr>pubkey = 9, rest = 3\<rparr>, insertedAt = 20\<rparr>)],
      m_NextFlushAt = 300000, disk = []\<rparr> =
     \<lparr>m_Root = [''db''],
      entries = [(5, \<lparr>rc = \<lparr>pubkey = 5, rest = 1 :: nat\<rparr>, insertedAt = 10\<rparr>),
                 (9, \<lparr>rc = \<lparr>pubkey = 9, rest = 3\<rparr>, insertedAt = 20\<rparr>)],
      m_NextFlushAt = 600000,
      disk = [WriteContacts [\<lparr>pubkey = 5, rest = 1\<rparr>, \<lparr>pubkey = 9, rest = 3\<rparr>]]\<rparr>"
  using Tick_flush_gating
     [of "\<lparr>m_Root = [''db''],
      entries = [(5, \<lparr>rc = \<lparr>pubkey = 5, rest = 1 :: nat\<rparr>, insertedAt = 10\<rparr>)],
      m_NextFlushAt = 0, disk = []\<rparr>" "[1, 400000, 900000]" 1]
    Tick_flush_gating
     [of "\<lparr>m_Root = [''db''],
      entries = [(5, \<lparr>rc = \<lparr>pubkey = 5, rest = 1 :: nat\<rparr>, insertedAt = 10\<rparr>),
                 (9, \<lparr>rc = \<lparr>pubkey = 9, rest = 3\<rparr>, insertedAt = 20\<rparr>)],
      m_NextFlushAt = 300000, disk = []\<rparr>" "[]" 1000000]
  by (simp add: add_ms_def)

subsection \<open>\<^verbatim>\<open>remove_router\<close>\<close>

lemma wf_entries_remove_router:
  "wf_entries (entries db) \<Longrightarrow> wf_entries (entries (remove_router pk db))"
  by (simp add: remove_router_def call_def remove_many_from_disk_async_def disk_call_def
      wf_entries_erase)

text \<open>
  C8, as the code has it. \<^verbatim>\<open>remove_router\<close> has no failing branch. After it the
  table has no entry for the identifier and every other entry is as before, whether or
  not the identifier was present; a second call leaves the table as the first did. When
  the root path is not empty, each call queues one job removing the file of the
  identifier, present or not. When the root path is empty,
  \<^verbatim>\<open>remove_many_from_disk_async\<close> returns at once and no job is queued.
\<close>

theorem remove_router_total:
  "find_entry (entries (remove_router pk db)) = (find_entry (entries db))(pk := None)
   \<and> entries (remove_router pk (remove_router pk db)) = entries (remove_router pk db)
   \<and> disk (remove_router pk db) =
       (if m_Root db = [] then disk db
        else disk db @ [RemoveFiles {get_path_by_pubkey db pk}])
   \<and> m_Root (remove_router pk db) = m_Root db
   \<and> m_NextFlushAt (remove_router pk db) = m_NextFlushAt db"
proof -
  have "get_path_by_pubkey (db\<lparr>entries := erase pk (entries db)\<rparr>) pk = get_path_by_pubkey db pk"
    by (rule get_path_by_pubkey_root) simp
  moreover have "erase pk (erase pk (entries db)) = erase pk (entries db)"
    by (simp add: erase_def)
  ultimately show ?thesis
    by (auto simp: remove_router_def call_def remove_many_from_disk_async_def disk_call_def
        find_entry_erase fun_eq_iff)
qed

theorem remove_router_total_witness:
  "find_entry (entries (remove_router 5
     \<lparr>m_Root = [''db''],
      entries = [(5, \<lparr>rc = \<lparr>pubkey = 5, rest = 1 :: nat\<rparr>, insertedAt = 10\<rparr>),
                 (9, \<lparr>rc = \<lparr>pubkey = 9, rest = 3\<rparr>, insertedAt = 20\<rparr>)],
      m_NextFlushAt = 0, disk = []\<rparr>)) 5 = None
   \<and> find_entry (entries (remove_router 5
     \<lparr>m_Root = [''db''],
      entries = [(5, \<lparr>rc = \<lparr>pubkey = 5, rest = 1 :: nat\<rparr>, insertedAt = 10\<rparr>),
                 (9, \<lparr>rc = \<lparr>pubkey = 9, rest = 3\<rparr>, insertedAt = 20\<rparr>)],
      m_NextFlushAt = 0, disk = []\<rparr>)) 9 =
       Some \<lparr>rc = \<lparr>pubkey = 9, rest = 3\<rparr>, insertedAt = 20\<rparr>
   \<and> disk (remove_router 7
     \<lparr>m_Root = [''db''],
      entries = [(5, \<lparr>rc = \<lparr>pubkey = 5, rest = 1 :: nat\<rparr>, insertedAt = 10\<rparr>),
                 (9, \<lparr>rc = \<lparr>pubkey = 9, rest = 3\<rparr>, insertedAt = 20\<rparr>)],
      m_NextFlushAt = 0, disk = []\<rparr>) =
       [RemoveFiles {get_path_by_pubkey
     \<lparr>m_Root = [''db''],
      entries = [(5, \<lparr>rc = \<lparr>pubkey = 5, rest = 1 :: nat\<rparr>, insertedAt = 10\<rparr>),
                 (9, \<lparr>rc = \<lparr>pubkey = 9, rest = 3\<rparr>, insertedAt = 20\<rparr>)],
      m_NextFlushAt = 0, disk = []\<rparr> 7}]"
  using remove_router_total [of 5
     "\<lparr>m_Root = [''db''],
      entries = [(5, \<lparr>rc = \<lparr>pubkey = 5, rest = 1 :: nat\<rparr>, insertedAt = 10\<rparr>),
                 (9, \<lparr>rc = \<lparr>pubkey = 9, rest = 3\<rparr>, insertedAt = 20\<rparr>)],
      m_NextFlushAt = 0, disk = []\<rparr>"]
    remove_router_total [of 7
     "\<lparr>m_Root = [''db''],
      entries = [(5, \<lparr>rc = \<lparr>pubkey = 5, rest = 1 :: nat\<rparr>, insertedAt = 10\<rparr>),
                 (9, \<lparr>rc = \<lparr>pubkey = 9, rest = 3\<rparr>, insertedAt = 20\<rparr>)],
      m_NextFlushAt = 0, disk = []\<rparr>"]
  by (simp add: find_entry_def)

text \<open>
  The claim as stated fails on a database with an empty root path: the entry is erased
  and the queue of disk jobs stays empty.
\<close>

theorem remove_router_empty_root_counterexample:
  "find_entry (entries (remove_router 5
     \<lparr>m_Root = [],
      entries = [(5, \<lparr>rc = \<lparr>pubkey = 5, rest = 1 :: nat\<rparr>, insertedAt = 10\<rparr>)],
      m_NextFlushAt = 0, disk = []\<rparr>)) 5 = None
   \<and> disk (remove_router 5
     \<lparr>m_Root = [],
      entries = [(5, \<lparr>rc = \<lparr>pubkey = 5, rest = 1 :: nat\<rparr>, insertedAt = 10\<rparr>)],
      m_NextFlushAt = 0, disk = []\<rparr>) = []"
  by (simp add: remove_router_def call_def remove_many_from_disk_async_def erase_def
      find_entry_def)

subsection \<open>The queries\<close>

text \<open>
  C10. \<^verbatim>\<open>has_router\<close>, \<^verbatim>\<open>get_rc\<close>, \<^verbatim>\<open>num_loaded\<close>, \<^verbatim>\<open>find_closest_to\<close> and
  \<^verbatim>\<open>find_many_closest_to\<close> give back the database they were called on; and
  \<^verbatim>\<open>get_rc\<close> returns the contact stored under the identifier when \<^verbatim>\<open>has_router\<close>
  holds of it, and nothing otherwise.
\<close>

theorem queries_leave_table_unchanged:
  "snd (has_router db pk) = db
   \<and> snd (get_rc db pk) = db
   \<and> snd (num_loaded db) = db
   \<and> snd (find_closest_to dflt db location) = db
   \<and> snd (find_many_closest_to alloc db location numRouters) = db
   \<and> fst (get_rc db pk) =
       (if fst (has_router db pk) then Some (rc (the (find_entry (entries db) pk))) else None)
   \<and> fst (has_router db pk) = (pk \<in> fst ` set (entries db))"
proof -
  have "find_entry (entries db) pk \<noteq> None \<longleftrightarrow> pk \<in> fst ` set (entries db)"
    by (simp add: find_entry_None_iff)
  then show ?thesis
    by (auto simp: has_router_def get_rc_def num_loaded_def find_closest_to_def
        find_many_closest_to_def call_get_def split: option.splits)
qed

theorem queries_leave_table_unchanged_witness:
  "fst (get_rc
     \<lparr>m_Root = [''db''],
      entries = [(5, \<lparr>rc = \<lparr>pubkey = 5, rest = 1 :: nat\<rparr>, insertedAt = 10\<rparr>),
                 (9, \<lparr>rc = \<lparr>pubkey = 9, rest = 3\<rparr>, insertedAt = 20\<rparr>)],
      m_NextFlushAt = 0, disk = []\<rparr> 9) = Some \<lparr>pubkey = 9, rest = 3\<rparr>
   \<and> fst (get_rc
     \<lparr>m_Root = [''db''],
      entries = [(5, \<lparr>rc = \<lparr>pubkey = 5, rest = 1 :: nat\<rparr>, insertedAt = 10\<rparr>),
                 (9, \<lparr>rc = \<lparr>pubkey = 9, rest = 3\<rparr>, insertedAt = 20\<rparr>)],
      m_NextFlushAt = 0, disk = []\<rparr> 7) = None"
  using queries_leave_table_unchanged [where db =
     "\<lparr>m_Root = [''db''],
      entries = [(5, \<lparr>rc = \<lparr>pubkey = 5, rest = 1 :: nat\<rparr>, insertedAt = 10\<rparr>),
                 (9, \<lparr>rc = \<lparr>pubkey = 9, rest = 3\<rparr>, insertedAt = 20\<rparr>)],
      m_NextFlushAt = 0, disk = []\<rparr>" and pk = 9 and dflt = 0 and location = 0
      and numRouters = 0 and alloc = sample_alloc]
    queries_leave_table_unchanged [where db =
     "\<lparr>m_Root = [''db''],
      entries = [(5, \<lparr>rc = \<lparr>pubkey = 5, rest = 1 :: nat\<rparr>, insertedAt = 10\<rparr>),
                 (9, \<lparr>rc = \<lparr>pubkey = 9, rest = 3\<rparr>, insertedAt = 20\<rparr>)],
      m_NextFlushAt = 0, disk = []\<rparr>" and pk = 7 and dflt = 0 and location = 0
      and numRouters = 0 and alloc = sample_alloc]
  by (simp add: find_entry_def)

subsection \<open>\<^verbatim>\<open>put_rc_if_newer\<close>\<close>

lemma wf_entries_put_rc_if_newer:
  "wf_entries (entries db) \<Longrightarrow> wf_entries (entries (put_rc_if_newer ops t c db))"
  by (simp add: put_rc_if_newer_def call_def wf_entries_erase wf_entries_emplace mk_Entry_def
      split: option.splits)

lemma put_rc_if_newer_absent:
  "find_entry (entries db) (pubkey c) = None \<Longrightarrow>
   find_entry (entries (put_rc_if_newer ops t c db)) =
     (find_entry (entries db))(pubkey c \<mapsto> \<lparr>rc = c, insertedAt = t\<rparr>)"
  by (auto simp: put_rc_if_newer_def call_def find_entry_emplace mk_Entry_def fun_eq_iff)

lemma put_rc_if_newer_newer:
  "find_entry (entries db) (pubkey c) = Some e \<Longrightarrow> OtherIsNewer ops (rc e) c \<Longrightarrow>
   find_entry (entries (put_rc_if_newer ops t c db)) =
     (find_entry (entries db))(pubkey c \<mapsto> \<lparr>rc = c, insertedAt = t\<rparr>)"
  by (auto simp: put_rc_if_newer_def call_def find_entry_emplace find_entry_erase mk_Entry_def
      fun_eq_iff)

lemma put_rc_if_newer_not_newer:
  "find_entry (entries db) (pubkey c) = Some e \<Longrightarrow> \<not> OtherIsNewer ops (rc e) c \<Longrightarrow>
   put_rc_if_newer ops t c db = db"
  by (simp add: put_rc_if_newer_def call_def)

text \<open>
  Putting the stored contact again: the code admits it exactly when \<^verbatim>\<open>OtherIsNewer\<close>
  holds of the contact and itself, whatever the comparator is.
\<close>

lemma put_rc_if_newer_same:
  "find_entry (entries db) (pubkey c) = Some \<lparr>rc = c, insertedAt = t0\<rparr> \<Longrightarrow> t \<noteq> t0 \<Longrightarrow>
   put_rc_if_newer ops t c db \<noteq> db \<longleftrightarrow> OtherIsNewer ops c c"
proof (cases "OtherIsNewer ops c c")
  case True
  assume stored: "find_entry (entries db) (pubkey c) = Some \<lparr>rc = c, insertedAt = t0\<rparr>"
    and fresh: "t \<noteq> t0"
  have "find_entry (entries (put_rc_if_newer ops t c db)) (pubkey c) =
      Some \<lparr>rc = c, insertedAt = t\<rparr>"
    using put_rc_if_newer_newer [OF stored, of ops t] True by simp
  with stored fresh have "put_rc_if_newer ops t c db \<noteq> db"
    by auto
  with True show ?thesis by simp
next
  case False
  assume stored: "find_entry (entries db) (pubkey c) = Some \<lparr>rc = c, insertedAt = t0\<rparr>"
  have "put_rc_if_newer ops t c db = db"
    using put_rc_if_newer_not_newer [OF stored, of ops t] False by simp
  with False show ?thesis by simp
qed

text \<open>
  C2, as the code has it. \<^verbatim>\<open>put_rc_if_newer\<close> stores the incoming contact, with the
  clock reading of the call, when the table has no entry for its identity or when
  \<^verbatim>\<open>OtherIsNewer\<close> of the stored contact holds of the incoming one (the incoming
  contact is newer than the stored one); otherwise it changes nothing. So for contacts
  \<open>a\<close> and \<open>b\<close> of one identity with \<open>b\<close> newer than \<open>a\<close> and \<open>a\<close> not newer than
  \<open>b\<close>: after \<^verbatim>\<open>put_rc(a)\<close> and \<^verbatim>\<open>put_rc_if_newer(b)\<close> the table holds \<open>b\<close>, and
  after \<^verbatim>\<open>put_rc(b)\<close> and \<^verbatim>\<open>put_rc_if_newer(a)\<close> it still holds \<open>b\<close>.
\<close>

theorem put_rc_if_newer_admits:
  "(case find_entry (entries db) (pubkey c) of
      None \<Rightarrow>
        find_entry (entries (put_rc_if_newer ops t c db)) =
          (find_entry (entries db))(pubkey c \<mapsto> \<lparr>rc = c, insertedAt = t\<rparr>)
    | Some e \<Rightarrow>
        if OtherIsNewer ops (rc e) c then
          find_entry (entries (put_rc_if_newer ops t c db)) =
            (find_entry (entries db))(pubkey c \<mapsto> \<lparr>rc = c, insertedAt = t\<rparr>)
        else put_rc_if_newer ops t c db = db)
   \<and> (pubkey a = pubkey b \<and> OtherIsNewer ops a b \<and> \<not> OtherIsNewer ops b a \<longrightarrow>
        find_entry (entries (put_rc_if_newer ops t2 b (put_rc t1 a db))) (pubkey a) =
          Some \<lparr>rc = b, insertedAt = t2\<rparr>
        \<and> find_entry (entries (put_rc_if_newer ops t2 a (put_rc t1 b db))) (pubkey a) =
          Some \<lparr>rc = b, insertedAt = t1\<rparr>)"
proof -
  have first: "case find_entry (entries db) (pubkey c) of
      None \<Rightarrow>
        find_entry (entries (put_rc_if_newer ops t c db)) =
          (find_entry (entries db))(pubkey c \<mapsto> \<lparr>rc = c, insertedAt = t\<rparr>)
    | Some e \<Rightarrow>
        if OtherIsNewer ops (rc e) c then
          find_entry (entries (put_rc_if_newer ops t c db)) =
            (find_entry (entries db))(pubkey c \<mapsto> \<lparr>rc = c, insertedAt = t\<rparr>)
        else put_rc_if_newer ops t c db = db"
    by (simp add: put_rc_if_newer_absent put_rc_if_newer_newer put_rc_if_newer_not_newer
        split: option.splits)
  have second: "find_entry (entries (put_rc_if_newer ops t2 b (put_rc t1 a db))) (pubkey a) =
          Some \<lparr>rc = b, insertedAt = t2\<rparr>
        \<and> find_entry (entries (put_rc_if_newer ops t2 a (put_rc t1 b db))) (pubkey a) =
          Some \<lparr>rc = b, insertedAt = t1\<rparr>"
    if same: "pubkey a = pubkey b" and newer: "OtherIsNewer ops a b"
      and older: "\<not> OtherIsNewer ops b a"
  proof
    have stored_a: "find_entry (entries (put_rc t1 a db)) (pubkey b) =
        Some \<lparr>rc = a, insertedAt = t1\<rparr>"
      using find_entry_put_rc [of t1 a db] same by simp
    show "find_entry (entries (put_rc_if_newer ops t2 b (put_rc t1 a db))) (pubkey a) =
        Some \<lparr>rc = b, insertedAt = t2\<rparr>"
      using put_rc_if_newer_newer [OF stored_a, of ops t2] newer same by simp
    have stored_b: "find_entry (entries (put_rc t1 b db)) (pubkey a) =
        Some \<lparr>rc = b, insertedAt = t1\<rparr>"
      using find_entry_put_rc [of t1 b db] same by simp
    show "find_entry (entries (put_rc_if_newer ops t2 a (put_rc t1 b db))) (pubkey a) =
        Some \<lparr>rc = b, insertedAt = t1\<rparr>"
      using put_rc_if_newer_not_newer [OF stored_b, of ops t2] older stored_b by simp
  qed
  from first second show ?thesis by blast
qed

theorem put_rc_if_newer_admits_witness:
  "find_entry (entries (put_rc_if_newer sample_ops 70 (sample_rc 5 8 100)
     \<lparr>m_Root = [''db''],
      entries = [(5, \<lparr>rc = sample_rc 5 7 100, insertedAt = 10\<rparr>)],
      m_NextFlushAt = 0, disk = []\<rparr>)) 5 =
     Some \<lparr>rc = sample_rc 5 8 100, insertedAt = 70\<rparr>
   \<and> find_entry (entries (put_rc_if_newer sample_ops 70 (sample_rc 5 8 100)
       (put_rc 10 (sample_rc 5 7 100)
          \<lparr>m_Root = [''db''], entries = [], m_NextFlushAt = 0, disk = []\<rparr>))) 5 =
     Some \<lparr>rc = sample_rc 5 8 100, insertedAt = 70\<rparr>
   \<and> find_entry (entries (put_rc_if_newer sample_ops 70 (sample_rc 5 7 100)
       (put_rc 10 (sample_rc 5 8 100)
          \<lparr>m_Root = [''db''], entries = [], m_NextFlushAt = 0, disk = []\<rparr>))) 5 =
     Some \<lparr>rc = sample_rc 5 8 100, insertedAt = 10\<rparr>"
  using put_rc_if_newer_admits
    [where db = "\<lparr>m_Root = [''db''],
      entries = [(5, \<lparr>rc = sample_rc 5 7 100, insertedAt = 10\<rparr>)],
      m_NextFlushAt = 0, disk = []\<rparr>"
      and c = "sample_rc 5 8 100" and ops = sample_ops and t = 70
      and a = "sample_rc 5 7 100" and b = "sample_rc 5 8 100" and ?t1.0 = 10 and ?t2.0 = 70]
    put_rc_if_newer_admits
    [where db = "\<lparr>m_Root = [''db''], entries = [], m_NextFlushAt = 0, disk = []\<rparr>"
      and c = "sample_rc 5 8 100" and ops = sample_ops and t = 70
      and a = "sample_rc 5 7 100" and b = "sample_rc 5 8 100" and ?t1.0 = 10 and ?t2.0 = 70]
  by (simp add: sample_ops_def sample_rc_def find_entry_def)

text \<open>
  The claim as stated admits the incoming contact whenever the stored one is not newer
  than it. On a tie of two different contacts of one identity the stored contact is not
  newer than the incoming one, and the code keeps the stored one.
\<close>

theorem put_rc_if_newer_tie_counterexample:
  "\<not> OtherIsNewer sample_ops
       \<lparr>pubkey = 5, rest = \<lparr>last_updated = 7, our_net = True, sig_ok = True, expires = 200\<rparr>\<rparr>
       (sample_rc 5 7 100)
   \<and> find_entry (entries (put_rc_if_newer sample_ops 70
       \<lparr>pubkey = 5, rest = \<lparr>last_updated = 7, our_net = True, sig_ok = True, expires = 200\<rparr>\<rparr>
       \<lparr>m_Root = [''db''],
        entries = [(5, \<lparr>rc = sample_rc 5 7 100, insertedAt = 10\<rparr>)],
        m_NextFlushAt = 0, disk = []\<rparr>)) 5 =
     Some \<lparr>rc = sample_rc 5 7 100, insertedAt = 10\<rparr>
   \<and> sample_rc 5 7 100 \<noteq>
       \<lparr>pubkey = 5, rest = \<lparr>last_updated = 7, our_net = True, sig_ok = True, expires = 200\<rparr>\<rparr>"
  by (simp add: put_rc_if_newer_def call_def sample_ops_def sample_rc_def find_entry_def)

subsection \<open>\<^verbatim>\<open>remove_stale_rcs\<close>\<close>

lemma stale_loop_eq:
  "stale_loop keep cutoff es removed =
     (filter (\<lambda>itr. \<not> (insertedAt (snd itr) < cutoff \<and> pubkey (rc (snd itr)) \<notin> keep)) es,
      removed \<union> set (map (\<lambda>itr. pubkey (rc (snd itr)))
        (filter (\<lambda>itr. insertedAt (snd itr) < cutoff \<and> pubkey (rc (snd itr)) \<notin> keep) es)))"
  by (induction es arbitrary: removed) simp_all

lemma stale_loop_fst:
  "fst (stale_loop keep cutoff es removed) =
     filter (\<lambda>itr. \<not> (insertedAt (snd itr) < cutoff \<and> pubkey (rc (snd itr)) \<notin> keep)) es"
  by (simp add: stale_loop_eq)

lemma stale_loop_snd:
  "snd (stale_loop keep cutoff es removed) =
     removed \<union> set (map (\<lambda>itr. pubkey (rc (snd itr)))
       (filter (\<lambda>itr. insertedAt (snd itr) < cutoff \<and> pubkey (rc (snd itr)) \<notin> keep) es))"
  by (simp add: stale_loop_eq)

lemma wf_entries_filter: "wf_entries es \<Longrightarrow> wf_entries (filter P es)"
  by (simp add: wf_entries_def distinct_map_filter list_all_iff)

lemma wf_filter_key:
  "wf_entries es \<Longrightarrow>
   filter (\<lambda>itr. Q (pubkey (rc (snd itr))) (snd itr)) es = filter (\<lambda>itr. Q (fst itr) (snd itr)) es"
  by (rule filter_cong) (auto simp: wf_entries_def list_all_iff)

lemma wf_map_key:
  "wf_entries es \<Longrightarrow> map (\<lambda>itr. pubkey (rc (snd itr))) es = map fst es"
  by (auto simp: wf_entries_def list_all_iff)

lemma find_entry_filter:
  "distinct (map fst es) \<Longrightarrow>
   find_entry (filter P es) k =
     (case find_entry es k of None \<Rightarrow> None | Some e \<Rightarrow> if P (k, e) then Some e else None)"
proof (induction es)
  case Nil
  then show ?case by (simp add: find_entry_def)
next
  case (Cons item es)
  then have "fst item \<notin> fst ` set es" by simp
  then have "find_entry es (fst item) = None"
    by (simp add: find_entry_None_iff)
  with Cons show ?case
    by (cases item) (auto simp: find_entry_def split: option.splits)
qed

lemma wf_entries_remove_stale_rcs:
  "wf_entries (entries db) \<Longrightarrow> wf_entries (entries (remove_stale_rcs keep cutoff db))"
proof -
  assume wf: "wf_entries (entries db)"
  obtain es' removed where loop: "stale_loop keep cutoff (entries db) {} = (es', removed)"
    by (cases "stale_loop keep cutoff (entries db) {}")
  have "es' = fst (stale_loop keep cutoff (entries db) {})"
    by (simp add: loop)
  then have "wf_entries es'"
    using wf by (simp add: stale_loop_fst wf_entries_filter)
  then show ?thesis
    by (simp add: remove_stale_rcs_def call_def loop remove_many_from_disk_async_def
        disk_call_def Let_def)
qed

text \<open>
  C4, as the code has it. On a table that satisfies its invariant,
  \<^verbatim>\<open>remove_stale_rcs\<close> removes the entries inserted strictly before the cutoff whose
  identity is not in the keep set, and leaves every other entry as it is. When at least
  one entry is removed and the root path is not empty, it queues one job, which removes
  the files of all removed identities; otherwise it queues nothing.
\<close>

theorem remove_stale_rcs_prunes:
  assumes wf: "wf_entries (entries db)"
  shows "find_entry (entries (remove_stale_rcs keep cutoff db)) k =
      (case find_entry (entries db) k of
         None \<Rightarrow> None
       | Some e \<Rightarrow> if insertedAt e < cutoff \<and> k \<notin> keep then None else Some e)
    \<and> disk (remove_stale_rcs keep cutoff db) =
      (let removed = set (map fst (filter (\<lambda>itr. insertedAt (snd itr) < cutoff \<and> fst itr \<notin> keep)
                                     (entries db)))
       in if removed \<noteq> {} \<and> m_Root db \<noteq> []
          then disk db @ [RemoveFiles (get_path_by_pubkey db ` removed)]
          else disk db)
    \<and> m_Root (remove_stale_rcs keep cutoff db) = m_Root db
    \<and> m_NextFlushAt (remove_stale_rcs keep cutoff db) = m_NextFlushAt db"
proof -
  let ?stay = "filter (\<lambda>itr. \<not> (insertedAt (snd itr) < cutoff \<and> fst itr \<notin> keep)) (entries db)"
  let ?gone = "filter (\<lambda>itr. insertedAt (snd itr) < cutoff \<and> fst itr \<notin> keep) (entries db)"
  have stay: "fst (stale_loop keep cutoff (entries db) {}) = ?stay"
    unfolding stale_loop_fst
    using wf_filter_key [OF wf, of "\<lambda>pk e. \<not> (insertedAt e < cutoff \<and> pk \<notin> keep)"] by simp
  have gone: "filter (\<lambda>itr. insertedAt (snd itr) < cutoff \<and> pubkey (rc (snd itr)) \<notin> keep)
      (entries db) = ?gone"
    using wf_filter_key [OF wf, of "\<lambda>pk e. insertedAt e < cutoff \<and> pk \<notin> keep"] by simp
  have "wf_entries ?gone"
    using wf by (rule wf_entries_filter)
  then have keys: "map (\<lambda>itr. pubkey (rc (snd itr))) ?gone = map fst ?gone"
    by (rule wf_map_key)
  have removed: "snd (stale_loop keep cutoff (entries db) {}) = set (map fst ?gone)"
    by (simp only: stale_loop_snd gone keys Un_empty_left)
  have loop: "stale_loop keep cutoff (entries db) {} = (?stay, set (map fst ?gone))"
    using stay removed by (simp add: prod_eq_iff)
  have path: "get_path_by_pubkey (db\<lparr>entries := es\<rparr>) = get_path_by_pubkey db" for es
    by (rule ext, rule get_path_by_pubkey_root) simp
  have table: "entries (remove_stale_rcs keep cutoff db) = ?stay"
    by (simp add: remove_stale_rcs_def call_def loop remove_many_from_disk_async_def
        disk_call_def Let_def)
  have "distinct (map fst (entries db))"
    using wf by (simp add: wf_entries_def)
  then have lookup: "find_entry ?stay k =
      (case find_entry (entries db) k of
         None \<Rightarrow> None
       | Some e \<Rightarrow> if insertedAt e < cutoff \<and> k \<notin> keep then None else Some e)"
    by (simp add: find_entry_filter split: option.splits)
  have jobs: "disk (remove_stale_rcs keep cutoff db) =
      (let removed = set (map fst ?gone)
       in if removed \<noteq> {} \<and> m_Root db \<noteq> []
          then disk db @ [RemoveFiles (get_path_by_pubkey db ` removed)]
          else disk db)"
    by (auto simp: remove_stale_rcs_def call_def loop remove_many_from_disk_async_def
        disk_call_def Let_def path)
  have frame: "m_Root (remove_stale_rcs keep cutoff db) = m_Root db
      \<and> m_NextFlushAt (remove_stale_rcs keep cutoff db) = m_NextFlushAt db"
    by (simp add: remove_stale_rcs_def call_def loop remove_many_from_disk_async_def
        disk_call_def Let_def)
  from table lookup jobs frame show ?thesis
    by simp
qed


theorem remove_stale_rcs_prunes_witness:
  "wf_entries [(5, \<lparr>rc = sample_rc 5 1 100, insertedAt = 10\<rparr>),
               (6, \<lparr>rc = sample_rc 6 1 100, insertedAt = 10\<rparr>),
               (9, \<lparr>rc = sample_rc 9 1 100, insertedAt = 50\<rparr>)]
   \<and> find_entry (entries (remove_stale_rcs {6} 30
        \<lparr>m_Root = [''db''],
         entries = [(5, \<lparr>rc = sample_rc 5 1 100, insertedAt = 10\<rparr>),
                    (6, \<lparr>rc = sample_rc 6 1 100, insertedAt = 10\<rparr>),
                    (9, \<lparr>rc = sample_rc 9 1 100, insertedAt = 50\<rparr>)],
         m_NextFlushAt = 0, disk = []\<rparr>)) 5 = None
   \<and> find_entry (entries (remove_stale_rcs {6} 30
        \<lparr>m_Root = [''db''],
         entries = [(5, \<lparr>rc = sample_rc 5 1 100, insertedAt = 10\<rparr>),
                    (6, \<lparr>rc = sample_rc 6 1 100, insertedAt = 10\<rparr>),
                    (9, \<lparr>rc = sample_rc 9 1 100, insertedAt = 50\<rparr>)],
         m_NextFlushAt = 0, disk = []\<rparr>)) 6 =
       Some \<lparr>rc = sample_rc 6 1 100, insertedAt = 10\<rparr>
   \<and> find_entry (entries (remove_stale_rcs {6} 30
        \<lparr>m_Root = [''db''],
         entries = [(5, \<lparr>rc = sample_rc 5 1 100, insertedAt = 10\<rparr>),
                    (6, \<lparr>rc = sample_rc 6 1 100, insertedAt = 10\<rparr>),
                    (9, \<lparr>rc = sample_rc 9 1 100, insertedAt = 50\<rparr>)],
         m_NextFlushAt = 0, disk = []\<rparr>)) 9 =
       Some \<lparr>rc = sample_rc 9 1 100, insertedAt = 50\<rparr>
   \<and> disk (remove_stale_rcs {6} 30
        \<lparr>m_Root = [''db''],
         entries = [(5, \<lparr>rc = sample_rc 5 1 100, insertedAt = 10\<rparr>),
                    (6, \<lparr>rc = sample_rc 6 1 100, insertedAt = 10\<rparr>),
                    (9, \<lparr>rc = sample_rc 9 1 100, insertedAt = 50\<rparr>)],
         m_NextFlushAt = 0, disk = []\<rparr>) =
       [RemoveFiles {get_path_by_pubkey
        \<lparr>m_Root = [''db''],
         entries = [(5, \<lparr>rc = sample_rc 5 1 100, insertedAt = 10\<rparr>),
                    (6, \<lparr>rc = sample_rc 6 1 100, insertedAt = 10\<rparr>),
                    (9, \<lparr>rc = sample_rc 9 1 100, insertedAt = 50\<rparr>)],
         m_NextFlushAt = 0, disk = []\<rparr> 5}]"
proof -
  let ?db = "\<lparr>m_Root = [''db''],
         entries = [(5, \<lparr>rc = sample_rc 5 1 100, insertedAt = 10\<rparr>),
                    (6, \<lparr>rc = sample_rc 6 1 100, insertedAt = 10\<rparr>),
                    (9, \<lparr>rc = sample_rc 9 1 100, insertedAt = 50\<rparr>)],
         m_NextFlushAt = 0, disk = []\<rparr>"
  have wf: "wf_entries (entries ?db)"
    by (simp add: wf_entries_def sample_rc_def)
  show ?thesis
    using wf remove_stale_rcs_prunes [OF wf, of "{6}" 30 5]
      remove_stale_rcs_prunes [OF wf, of "{6}" 30 6]
      remove_stale_rcs_prunes [OF wf, of "{6}" 30 9]
    by (simp add: find_entry_def)
qed

text \<open>
  The claim as stated fails on a database with an empty root path: the stale entry is
  removed from the table and no job is queued.
\<close>

theorem remove_stale_rcs_empty_root_counterexample:
  "find_entry (entries (remove_stale_rcs {} 30
        \<lparr>m_Root = [],
         entries = [(5, \<lparr>rc = sample_rc 5 1 100, insertedAt = 10\<rparr>)],
         m_NextFlushAt = 0, disk = []\<rparr>)) 5 = None
   \<and> disk (remove_stale_rcs {} 30
        \<lparr>m_Root = [],
         entries = [(5, \<lparr>rc = sample_rc 5 1 100, insertedAt = 10\<rparr>)],
         m_NextFlushAt = 0, disk = []\<rparr>) = []"
  by (simp add: remove_stale_rcs_def call_def remove_many_from_disk_async_def find_entry_def
      sample_rc_def)

subsection \<open>\<^verbatim>\<open>find_many_closest_to\<close>\<close>

lemma insort_by_key: "insort_by (\<lambda>a b. f a < f b) x ys = insort_key f x ys"
  for f :: "'b \<Rightarrow> 'k::linorder"
  by (induction ys) auto

lemma partial_sort_XorMetric:
  "partial_sort (XorMetric_rc location) middle xs = sort_key (\<lambda>c. pubkey c XOR location) xs"
  for xs :: "'a RouterContact list"
proof -
  have "insort_by (XorMetric_rc location) =
      insort_key (\<lambda>c :: 'a RouterContact. pubkey c XOR location)"
    by (intro ext) (simp add: XorMetric_rc_def [abs_def] insort_by_key)
  then show ?thesis
    by (simp add: partial_sort_def sort_key_def)
qed

lemma xor_distance_le:
  "xor_distance target a \<le> xor_distance target b \<longleftrightarrow> a XOR target \<le> b XOR target"
  by (simp add: xor_distance_def word_le_nat_alt)

lemma sorted_take_drop:
  assumes "sorted (map f s)"
  shows "\<forall>a\<in>set (take n s). \<forall>b\<in>set (drop n s). f a \<le> f b"
proof -
  have "sorted (map f (take n s) @ map f (drop n s))"
    using assms by (simp flip: map_append)
  then show ?thesis
    by (auto simp: sorted_append)
qed

text \<open>
  When both reservations succeed, \<^verbatim>\<open>find_many_closest_to\<close> returns as many contacts
  as the count asks for, or all of them when the table has no more; they are contacts of
  the table, in ascending order of their XOR distance to the target; no contact of the
  table that is not returned is closer to the target than a returned one; and when the
  table has at most as many entries as the count, the contacts returned are those of
  the table.
\<close>

lemma find_many_closest_to_nearest:
  assumes pointers: "reserve_pointers alloc (length (entries db))"
    and contacts: "reserve_contacts alloc (unat numRouters)"
  shows "\<exists>closest. fst (find_many_closest_to alloc db location numRouters) = Inr closest
   \<and> length closest = min (unat numRouters) (length (entries db))
   \<and> mset closest \<subseteq># mset (map (\<lambda>entry. rc (snd entry)) (entries db))
   \<and> sorted (map (\<lambda>c. xor_distance location (pubkey c)) closest)
   \<and> (\<forall>a\<in>set closest.
       \<forall>b\<in>set_mset (mset (map (\<lambda>entry. rc (snd entry)) (entries db)) - mset closest).
         xor_distance location (pubkey a) \<le> xor_distance location (pubkey b))
   \<and> (length (entries db) \<le> unat numRouters \<longrightarrow>
       mset closest = mset (map (\<lambda>entry. rc (snd entry)) (entries db)))"
proof -
  let ?all = "map (\<lambda>entry. rc (snd entry)) (entries db)"
  let ?key = "\<lambda>c :: 'a RouterContact. pubkey c XOR location"
  let ?s = "sort_key ?key ?all"
  let ?n = "min (unat numRouters) (length (entries db))"
  have mid: "(if unat numRouters < length ?all then unat numRouters else length ?all) = ?n"
    by simp
  have res: "fst (find_many_closest_to alloc db location numRouters) = Inr (take ?n ?s)"
    unfolding find_many_closest_to_def call_get_def Let_def fst_conv partial_sort_XorMetric mid
    using pointers contacts by simp
  have split: "mset ?all = mset (take ?n ?s) + mset (drop ?n ?s)"
    by (simp flip: mset_append)
  have len: "length (take ?n ?s) = ?n"
    by simp
  have sub: "mset (take ?n ?s) \<subseteq># mset ?all"
    unfolding split by simp
  have srt: "sorted (map ?key ?s)"
    by (rule sorted_sort_key)
  have "sorted (map ?key (take ?n ?s))"
    using sorted_wrt_take [OF srt, of ?n] by (simp only: take_map)
  then have "sorted_wrt (\<lambda>a b. ?key a \<le> ?key b) (take ?n ?s)"
    by (simp add: sorted_wrt_map)
  then have "sorted_wrt (\<lambda>a b. xor_distance location (pubkey a) \<le> xor_distance location (pubkey b))
      (take ?n ?s)"
    by (simp only: xor_distance_le)
  then have asc: "sorted (map (\<lambda>c. xor_distance location (pubkey c)) (take ?n ?s))"
    by (simp add: sorted_wrt_map)
  have rest: "mset ?all - mset (take ?n ?s) = mset (drop ?n ?s)"
    unfolding split by simp
  have "\<forall>a\<in>set (take ?n ?s). \<forall>b\<in>set (drop ?n ?s). ?key a \<le> ?key b"
    using srt by (rule sorted_take_drop)
  then have least: "\<forall>a\<in>set (take ?n ?s). \<forall>b\<in>set_mset (mset ?all - mset (take ?n ?s)).
      xor_distance location (pubkey a) \<le> xor_distance location (pubkey b)"
    unfolding rest by (simp add: xor_distance_le)
  have whole: "length (entries db) \<le> unat numRouters \<longrightarrow> mset (take ?n ?s) = mset ?all"
    by simp
  from res len sub asc least whole show ?thesis
    by blast
qed

text \<open>
  When room for \<^verbatim>\<open>numRouters\<close> contacts cannot be reserved, the call fails, whatever
  the table holds.
\<close>

lemma find_many_closest_to_throws:
  "\<not> reserve_contacts alloc (unat numRouters) \<Longrightarrow>
   fst (find_many_closest_to alloc db location numRouters) = Inl bad_alloc"
  by (simp add: find_many_closest_to_def call_get_def Let_def)

text \<open>
  C7. \<^verbatim>\<open>find_many_closest_to\<close> reserves room for \<^verbatim>\<open>numRouters\<close> contacts, not for
  the number of contacts it returns. On a table of three entries and an allocator with
  room for fewer than \<open>2 ^ 24\<close> contacts, the count 3 gives the three contacts in
  ascending order of distance, and the count 4294967295 gives the allocation error and
  no contact, though the table has fewer entries than the count.
\<close>

theorem find_many_closest_to_reserve_throws:
  "fst (find_many_closest_to sample_alloc
        \<lparr>m_Root = [''db''],
         entries = [(15, \<lparr>rc = sample_rc 15 1 100, insertedAt = 10\<rparr>),
                    (2, \<lparr>rc = sample_rc 2 1 100, insertedAt = 10\<rparr>),
                    (1, \<lparr>rc = sample_rc 1 1 100, insertedAt = 50\<rparr>)],
         m_NextFlushAt = 0, disk = []\<rparr> 0 4294967295) = Inl bad_alloc
   \<and> fst (find_many_closest_to sample_alloc
        \<lparr>m_Root = [''db''],
         entries = [(15, \<lparr>rc = sample_rc 15 1 100, insertedAt = 10\<rparr>),
                    (2, \<lparr>rc = sample_rc 2 1 100, insertedAt = 10\<rparr>),
                    (1, \<lparr>rc = sample_rc 1 1 100, insertedAt = 50\<rparr>)],
         m_NextFlushAt = 0, disk = []\<rparr> 0 3) =
       Inr [sample_rc 1 1 100, sample_rc 2 1 100, sample_rc 15 1 100]
   \<and> fst (find_many_closest_to sample_alloc
        \<lparr>m_Root = [''db''],
         entries = [(15, \<lparr>rc = sample_rc 15 1 100, insertedAt = 10\<rparr>),
                    (2, \<lparr>rc = sample_rc 2 1 100, insertedAt = 10\<rparr>),
                    (1, \<lparr>rc = sample_rc 1 1 100, insertedAt = 50\<rparr>)],
         m_NextFlushAt = 0, disk = []\<rparr> 0 2) = Inr [sample_rc 1 1 100, sample_rc 2 1 100]"
  by (simp add: find_many_closest_to_def call_get_def partial_sort_def XorMetric_rc_def
      sample_rc_def sample_alloc_def)

subsection \<open>\<^verbatim>\<open>find_closest_to\<close>\<close>

lemma xor_distance_less:
  "xor_distance target a < xor_distance target b \<longleftrightarrow> target XOR a < target XOR b"
  by (simp add: xor_distance_def word_less_nat_alt xor.commute)

lemma closest_visit_nonzero:
  "pubkey c \<noteq> 0 \<Longrightarrow>
   closest_visit location c otherRC =
     (if xor_distance location (pubkey otherRC) < xor_distance location (pubkey c)
      then otherRC else c)"
  by (simp add: closest_visit_def IsZero_def XorMetric_def xor_distance_less)

lemma closest_scan_nonzero:
  assumes "pubkey c \<noteq> 0" and "\<forall>x\<in>set xs. pubkey x \<noteq> 0"
  shows "foldl (closest_visit location) c xs \<in> insert c (set xs)
    \<and> (\<forall>x\<in>insert c (set xs).
         xor_distance location (pubkey (foldl (closest_visit location) c xs)) \<le>
         xor_distance location (pubkey x))"
  using assms
proof (induction xs arbitrary: c)
  case Nil
  then show ?case by simp
next
  case (Cons y ys)
  let ?c' = "closest_visit location c y"
  have c': "?c' = (if xor_distance location (pubkey y) < xor_distance location (pubkey c)
      then y else c)"
    using Cons.prems(1) by (rule closest_visit_nonzero)
  then have nz: "pubkey ?c' \<noteq> 0"
    using Cons.prems by auto
  have rest: "\<forall>x\<in>set ys. pubkey x \<noteq> 0"
    using Cons.prems(2) by simp
  note ih = Cons.IH [OF nz rest]
  have le_c: "xor_distance location (pubkey ?c') \<le> xor_distance location (pubkey c)"
    and le_y: "xor_distance location (pubkey ?c') \<le> xor_distance location (pubkey y)"
    unfolding c' by auto
  have mem: "?c' \<in> {c, y}"
    unfolding c' by auto
  from ih have in_set: "foldl (closest_visit location) ?c' ys \<in> insert ?c' (set ys)"
    and least: "\<forall>x\<in>insert ?c' (set ys).
         xor_distance location (pubkey (foldl (closest_visit location) ?c' ys)) \<le>
         xor_distance location (pubkey x)"
    by blast+
  from least have top: "xor_distance location (pubkey (foldl (closest_visit location) ?c' ys)) \<le>
      xor_distance location (pubkey ?c')"
    by blast
  have "foldl (closest_visit location) c (y # ys) \<in> insert c (set (y # ys))"
    using in_set mem by auto
  moreover have "\<forall>x\<in>insert c (set (y # ys)).
      xor_distance location (pubkey (foldl (closest_visit location) c (y # ys))) \<le>
      xor_distance location (pubkey x)"
    using least top le_c le_y by auto
  ultimately show ?case by blast
qed

lemma VisitAll_contacts:
  "VisitAll visit s db = foldl visit s (map (\<lambda>item. rc (snd item)) (entries db))"
  by (simp add: VisitAll_def foldl_map)

lemma find_closest_to_empty:
  "entries db = [] \<Longrightarrow> fst (find_closest_to dflt db location) = default_rc dflt"
  by (simp add: find_closest_to_def call_get_def VisitAll_def)

lemma find_closest_to_nonzero:
  assumes nonempty: "entries db \<noteq> []"
    and nonzero: "\<forall>item\<in>set (entries db). pubkey (rc (snd item)) \<noteq> 0"
  shows "fst (find_closest_to dflt db location) \<in> set (map (\<lambda>item. rc (snd item)) (entries db))
    \<and> (\<forall>item\<in>set (entries db).
         xor_distance location (pubkey (fst (find_closest_to dflt db location))) \<le>
         xor_distance location (pubkey (rc (snd item))))"
proof -
  obtain y ys where contacts: "map (\<lambda>item. rc (snd item)) (entries db) = y # ys"
    using nonempty by (cases "entries db") auto
  have all: "\<forall>x\<in>set (y # ys). pubkey x \<noteq> 0"
    using nonzero unfolding contacts [symmetric] by simp
  have first: "closest_visit location (default_rc dflt) y = y"
    by (simp add: closest_visit_def default_rc_def IsZero_def)
  have res: "fst (find_closest_to dflt db location) = foldl (closest_visit location) y ys"
    by (simp add: find_closest_to_def call_get_def VisitAll_contacts contacts first)
  have "foldl (closest_visit location) y ys \<in> insert y (set ys)
    \<and> (\<forall>x\<in>insert y (set ys).
         xor_distance location (pubkey (foldl (closest_visit location) y ys)) \<le>
         xor_distance location (pubkey x))"
    using all by (intro closest_scan_nonzero) auto
  then have "fst (find_closest_to dflt db location) \<in> set (y # ys)
    \<and> (\<forall>x\<in>set (y # ys).
         xor_distance location (pubkey (fst (find_closest_to dflt db location))) \<le>
         xor_distance location (pubkey x))"
    unfolding res by simp
  then show ?thesis
    unfolding contacts [symmetric] by simp
qed

text \<open>
  C6. The scan of \<^verbatim>\<open>find_closest_to\<close> takes a contact with the zero key for the
  not yet assigned result. On the table of the two identifiers \<open>0\<close> and \<open>1\<close>, iterated
  in this order, and the target \<open>0\<close>, it returns the contact of \<open>1\<close>, at distance 1,
  though the contact of \<open>0\<close> is at distance 0; \<^verbatim>\<open>find_many_closest_to\<close> with count 1
  returns the contact of \<open>0\<close> on the same table.
\<close>

theorem find_closest_to_zero_key:
  "fst (find_closest_to \<lparr>last_updated = 0, our_net = False, sig_ok = False, expires = 0\<rparr>
        \<lparr>m_Root = [''db''],
         entries = [(0, \<lparr>rc = sample_rc 0 1 100, insertedAt = 10\<rparr>),
                    (1, \<lparr>rc = sample_rc 1 1 100, insertedAt = 10\<rparr>)],
         m_NextFlushAt = 0, disk = []\<rparr> 0) = sample_rc 1 1 100
   \<and> xor_distance 0 (pubkey (sample_rc 0 1 100)) = 0
   \<and> xor_distance 0 (pubkey (sample_rc 1 1 100)) = 1
   \<and> fst (find_many_closest_to sample_alloc
        \<lparr>m_Root = [''db''],
         entries = [(0, \<lparr>rc = sample_rc 0 1 100, insertedAt = 10\<rparr>),
                    (1, \<lparr>rc = sample_rc 1 1 100, insertedAt = 10\<rparr>)],
         m_NextFlushAt = 0, disk = []\<rparr> 0 1) = Inr [sample_rc 0 1 100]"
  by (simp add: find_closest_to_def call_get_def VisitAll_def closest_visit_def default_rc_def
      IsZero_def XorMetric_def xor_distance_def sample_rc_def find_many_closest_to_def
      partial_sort_def XorMetric_rc_def sample_alloc_def)

subsection \<open>\<^verbatim>\<open>load_from_disk\<close>\<close>

lemma load_scan_append:
  "load_scan ops clock fs s (pre @ f # post) =
     load_scan ops clock fs (load_visit ops clock fs (load_scan ops clock fs s pre) f) post"
  by (simp add: load_scan_def)

lemma load_visit_purge_mono: "ls_purge s \<subseteq> ls_purge (load_visit ops clock fs s f)"
  by (auto simp: load_visit_def split: option.splits)

lemma load_scan_purge_mono: "ls_purge s \<subseteq> ls_purge (load_scan ops clock fs s files)"
proof (induction files arbitrary: s)
  case Nil
  then show ?case by (simp add: load_scan_def)
next
  case (Cons f files)
  have "ls_purge s \<subseteq> ls_purge (load_visit ops clock fs s f)"
    by (rule load_visit_purge_mono)
  also have "\<dots> \<subseteq> ls_purge (load_scan ops clock fs (load_visit ops clock fs s f) files)"
    by (rule Cons.IH)
  finally show ?case by (simp add: load_scan_def)
qed

lemma load_visit_purged:
  "p \<in> ls_purge (load_visit ops clock fs s f) \<Longrightarrow> p \<notin> ls_purge s \<Longrightarrow>
   p = f \<and> (case Read ops fs p of None \<Rightarrow> True | Some c \<Rightarrow> FromOurNetwork ops c)"
  by (auto simp: load_visit_def split: option.splits if_splits)

lemma load_scan_purged:
  "p \<in> ls_purge (load_scan ops clock fs s files) \<Longrightarrow> p \<notin> ls_purge s \<Longrightarrow>
   p \<in> set files \<and> (case Read ops fs p of None \<Rightarrow> True | Some c \<Rightarrow> FromOurNetwork ops c)"
proof (induction files arbitrary: s)
  case Nil
  then show ?case by (simp add: load_scan_def)
next
  case (Cons f files)
  let ?s = "load_visit ops clock fs s f"
  have scan: "load_scan ops clock fs s (f # files) = load_scan ops clock fs ?s files"
    by (simp add: load_scan_def)
  show ?case
  proof (cases "p \<in> ls_purge ?s")
    case True
    with Cons.prems(2) show ?thesis
      using load_visit_purged [of p ops clock fs s f] by auto
  next
    case False
    with Cons.prems(1) show ?thesis
      using Cons.IH [of ?s] unfolding scan by simp
  qed
qed

lemma load_visit_keeps:
  "find_entry (ls_entries s) k = Some e \<Longrightarrow>
   find_entry (ls_entries (load_visit ops clock fs s f)) k = Some e"
  by (auto simp: load_visit_def find_entry_emplace split: option.splits)

lemma load_scan_keeps:
  "find_entry (ls_entries s) k = Some e \<Longrightarrow>
   find_entry (ls_entries (load_scan ops clock fs s files)) k = Some e"
proof (induction files arbitrary: s)
  case Nil
  then show ?case by (simp add: load_scan_def)
next
  case (Cons f files)
  from Cons.prems have "find_entry (ls_entries (load_visit ops clock fs s f)) k = Some e"
    by (rule load_visit_keeps)
  then have "find_entry (ls_entries (load_scan ops clock fs (load_visit ops clock fs s f) files)) k =
      Some e"
    by (rule Cons.IH)
  then show ?case by (simp add: load_scan_def)
qed

lemma wf_entries_load_visit:
  "wf_entries (ls_entries s) \<Longrightarrow> wf_entries (ls_entries (load_visit ops clock fs s f))"
  by (auto simp: load_visit_def wf_entries_emplace mk_Entry_def split: option.splits)

lemma wf_entries_load_scan:
  "wf_entries (ls_entries s) \<Longrightarrow> wf_entries (ls_entries (load_scan ops clock fs s files))"
proof (induction files arbitrary: s)
  case Nil
  then show ?case by (simp add: load_scan_def)
next
  case (Cons f files)
  from Cons.prems have "wf_entries (ls_entries (load_visit ops clock fs s f))"
    by (rule wf_entries_load_visit)
  then have "wf_entries (ls_entries (load_scan ops clock fs (load_visit ops clock fs s f) files))"
    by (rule Cons.IH)
  then show ?case by (simp add: load_scan_def)
qed

text \<open>
  Every entry of the table after the scan was in the table before it, or holds a
  contact that was read from a visited regular file with the extension \<^verbatim>\<open>.signed\<close>,
  is of our network, was not expired at the clock reading taken for it, and has a valid
  signature; its insertion time is the next clock reading.
\<close>

lemma load_visit_admitted:
  "find_entry (ls_entries (load_visit ops clock fs s f)) k = Some e \<Longrightarrow>
   find_entry (ls_entries s) k = Some e \<or>
   (is_regular_file fs f \<and> extension f = RC_FILE_EXT \<and> Read ops fs f = Some (rc e)
     \<and> FromOurNetwork ops (rc e) \<and> VerifySignature ops (rc e) \<and> pubkey (rc e) = k
     \<and> \<not> IsExpired ops (rc e) (clock (ls_clock s)) \<and> insertedAt e = clock (Suc (ls_clock s)))"
  by (auto simp: load_visit_def find_entry_emplace mk_Entry_def split: option.splits if_splits)

lemma load_scan_admitted:
  "find_entry (ls_entries (load_scan ops clock fs s files)) k = Some e \<Longrightarrow>
   find_entry (ls_entries s) k = Some e \<or>
   (\<exists>f\<in>set files. \<exists>n. is_regular_file fs f \<and> extension f = RC_FILE_EXT
     \<and> Read ops fs f = Some (rc e) \<and> FromOurNetwork ops (rc e) \<and> VerifySignature ops (rc e)
     \<and> pubkey (rc e) = k \<and> \<not> IsExpired ops (rc e) (clock n) \<and> insertedAt e = clock (Suc n))"
proof (induction files arbitrary: s)
  case Nil
  then show ?case by (simp add: load_scan_def)
next
  case (Cons f files)
  let ?s = "load_visit ops clock fs s f"
  have scan: "load_scan ops clock fs s (f # files) = load_scan ops clock fs ?s files"
    by (simp add: load_scan_def)
  from Cons.prems have "find_entry (ls_entries ?s) k = Some e \<or>
      (\<exists>f\<in>set files. \<exists>n. is_regular_file fs f \<and> extension f = RC_FILE_EXT
        \<and> Read ops fs f = Some (rc e) \<and> FromOurNetwork ops (rc e) \<and> VerifySignature ops (rc e)
        \<and> pubkey (rc e) = k \<and> \<not> IsExpired ops (rc e) (clock n) \<and> insertedAt e = clock (Suc n))"
    unfolding scan by (rule Cons.IH)
  then show ?case
  proof
    assume "find_entry (ls_entries ?s) k = Some e"
    then show ?thesis
      using load_visit_admitted [of ops clock fs s f k e] by auto
  next
    assume "\<exists>f\<in>set files. \<exists>n. is_regular_file fs f \<and> extension f = RC_FILE_EXT
        \<and> Read ops fs f = Some (rc e) \<and> FromOurNetwork ops (rc e) \<and> VerifySignature ops (rc e)
        \<and> pubkey (rc e) = k \<and> \<not> IsExpired ops (rc e) (clock n) \<and> insertedAt e = clock (Suc n)"
    then show ?thesis by auto
  qed
qed

lemma load_from_disk_fs:
  "m_Root db \<noteq> [] \<Longrightarrow>
   snd (load_from_disk ops IterDir clock fs db) p =
     (if p \<in> ls_purge (load_scan ops clock fs
            \<lparr>ls_entries = entries db, ls_purge = {}, ls_clock = 0\<rparr>
            (load_files IterDir fs (m_Root db)))
      then None else fs p)"
  by (auto simp: load_from_disk_def Let_def fs_remove_all_def)

lemma load_from_disk_entries:
  "m_Root db \<noteq> [] \<Longrightarrow>
   entries (fst (load_from_disk ops IterDir clock fs db)) =
     ls_entries (load_scan ops clock fs
        \<lparr>ls_entries = entries db, ls_purge = {}, ls_clock = 0\<rparr>
        (load_files IterDir fs (m_Root db)))"
  by (simp add: load_from_disk_def Let_def)

lemma load_from_disk_admitted:
  assumes root: "m_Root db \<noteq> []"
    and stored: "find_entry (entries (fst (load_from_disk ops IterDir clock fs db))) k = Some e"
  shows "find_entry (entries db) k = Some e \<or>
   (FromOurNetwork ops (rc e) \<and> VerifySignature ops (rc e) \<and> pubkey (rc e) = k
     \<and> (\<exists>f\<in>set (load_files IterDir fs (m_Root db)). \<exists>n.
          is_regular_file fs f \<and> extension f = RC_FILE_EXT \<and> Read ops fs f = Some (rc e)
          \<and> \<not> IsExpired ops (rc e) (clock n) \<and> insertedAt e = clock (Suc n)))"
  using load_scan_admitted [of ops clock fs
      "\<lparr>ls_entries = entries db, ls_purge = {}, ls_clock = 0\<rparr>"
      "load_files IterDir fs (m_Root db)" k e] stored
  unfolding load_from_disk_entries [OF root] by auto

text \<open>
  C3, as the code has it. Let \<open>f\<close> be a regular file with the extension
  \<^verbatim>\<open>.signed\<close> that the scan visits after the files \<open>pre\<close>, and let \<open>s\<close> be the state
  of the scan when it reaches \<open>f\<close>. If \<open>f\<close> does not decode, or decodes to a contact
  of our network that is expired at the clock reading taken for it, or that is not
  expired and has an invalid signature, then \<open>f\<close> is not on the disk after the load and
  visiting \<open>f\<close> adds nothing to the table. If \<open>f\<close> decodes to a contact of another
  network, \<open>f\<close> is on the disk as before and visiting it adds nothing to the table.
  In these cases the contact is not admitted: an entry of the table after the load that
  holds a contact of another network or with an invalid signature was in the table
  before the load, and one that holds the expired contact was in the table before the
  load or was inserted at a clock reading at which the contact was not expired.
  Otherwise the visit calls \<^verbatim>\<open>emplace\<close> with the identity key of the contact: when
  the table has no entry for that key the contact is stored under it, with the next
  clock reading as insertion time, and when it has one, that entry stays; either way
  the table after the load has that entry. Every entry of the table after the load was
  in the table before it or holds a contact, stored under its identity key, that was
  read from a visited contact file and passed the three checks.
\<close>

theorem load_from_disk_decision_table:
  assumes root: "m_Root db \<noteq> []"
    and files: "load_files IterDir fs (m_Root db) = pre @ f # post"
    and regular: "is_regular_file fs f"
    and ext: "extension f = RC_FILE_EXT"
  shows
    "(let s = load_scan ops clock fs
                \<lparr>ls_entries = entries db, ls_purge = {}, ls_clock = 0\<rparr> pre;
          s' = load_visit ops clock fs s f;
          db' = fst (load_from_disk ops IterDir clock fs db);
          fs' = snd (load_from_disk ops IterDir clock fs db)
      in (case Read ops fs f of
           None \<Rightarrow> fs' f = None \<and> ls_entries s' = ls_entries s
         | Some c \<Rightarrow>
             if \<not> FromOurNetwork ops c then
               fs' f = fs f \<and> ls_entries s' = ls_entries s
               \<and> (\<forall>k e. find_entry (entries db') k = Some e \<and> rc e = c \<longrightarrow>
                     find_entry (entries db) k = Some e)
             else if IsExpired ops c (clock (ls_clock s)) then
               fs' f = None \<and> ls_entries s' = ls_entries s
               \<and> (\<forall>k e. find_entry (entries db') k = Some e \<and> rc e = c \<longrightarrow>
                     find_entry (entries db) k = Some e
                     \<or> (\<exists>n. \<not> IsExpired ops c (clock n) \<and> insertedAt e = clock (Suc n)))
             else if \<not> VerifySignature ops c then
               fs' f = None \<and> ls_entries s' = ls_entries s
               \<and> (\<forall>k e. find_entry (entries db') k = Some e \<and> rc e = c \<longrightarrow>
                     find_entry (entries db) k = Some e)
             else
               ls_entries s' =
                 emplace (pubkey c) (mk_Entry (clock (Suc (ls_clock s))) c) (ls_entries s)
               \<and> find_entry (entries db') (pubkey c) =
                   (case find_entry (ls_entries s) (pubkey c) of
                      None \<Rightarrow> Some \<lparr>rc = c, insertedAt = clock (Suc (ls_clock s))\<rparr>
                    | Some e \<Rightarrow> Some e))
         \<and> (\<forall>k e. find_entry (entries db') k = Some e \<longrightarrow>
               find_entry (entries db) k = Some e
               \<or> (FromOurNetwork ops (rc e) \<and> VerifySignature ops (rc e) \<and> pubkey (rc e) = k
                   \<and> (\<exists>f'\<in>set (load_files IterDir fs (m_Root db)). \<exists>n.
                        is_regular_file fs f' \<and> extension f' = RC_FILE_EXT
                        \<and> Read ops fs f' = Some (rc e)
                        \<and> \<not> IsExpired ops (rc e) (clock n) \<and> insertedAt e = clock (Suc n)))))"
proof -
  let ?init = "\<lparr>ls_entries = entries db, ls_purge = {}, ls_clock = 0\<rparr> :: 'a load_state"
  let ?s = "load_scan ops clock fs ?init pre"
  let ?s' = "load_visit ops clock fs ?s f"
  let ?final = "load_scan ops clock fs ?init (load_files IterDir fs (m_Root db))"
  let ?db' = "fst (load_from_disk ops IterDir clock fs db)"
  let ?fs' = "snd (load_from_disk ops IterDir clock fs db)"
  have final: "?final = load_scan ops clock fs ?s' post"
    unfolding files by (rule load_scan_append)
  have purged: "?fs' f = None" if "f \<in> ls_purge ?s'"
  proof -
    have "f \<in> ls_purge ?final"
      unfolding final using that load_scan_purge_mono [of ?s' ops clock fs post] by blast
    then show ?thesis
      by (simp add: load_from_disk_fs [OF root])
  qed
  have kept: "?fs' f = fs f" if "Read ops fs f = Some c" and "\<not> FromOurNetwork ops c" for c
  proof -
    have "f \<notin> ls_purge ?final"
    proof
      assume "f \<in> ls_purge ?final"
      then have "case Read ops fs f of None \<Rightarrow> True | Some c \<Rightarrow> FromOurNetwork ops c"
        using load_scan_purged [of f ops clock fs ?init] by simp
      with that show False by simp
    qed
    then show ?thesis
      by (simp add: load_from_disk_fs [OF root])
  qed
  have table: "find_entry (entries ?db') k = Some e"
    if "find_entry (ls_entries ?s') k = Some e" for k e
    unfolding load_from_disk_entries [OF root] final using that by (rule load_scan_keeps)
  have admitted: "\<forall>k e. find_entry (entries ?db') k = Some e \<longrightarrow>
      find_entry (entries db) k = Some e
      \<or> (FromOurNetwork ops (rc e) \<and> VerifySignature ops (rc e) \<and> pubkey (rc e) = k
          \<and> (\<exists>f'\<in>set (load_files IterDir fs (m_Root db)). \<exists>n.
               is_regular_file fs f' \<and> extension f' = RC_FILE_EXT
               \<and> Read ops fs f' = Some (rc e)
               \<and> \<not> IsExpired ops (rc e) (clock n) \<and> insertedAt e = clock (Suc n)))"
    using load_from_disk_admitted [OF root] by blast
  have rejected: "\<forall>k e. find_entry (entries ?db') k = Some e \<and> rc e = c \<longrightarrow>
      find_entry (entries db) k = Some e"
    if "\<not> FromOurNetwork ops c \<or> \<not> VerifySignature ops c" for c
    using admitted that by blast
  have stale: "\<forall>k e. find_entry (entries ?db') k = Some e \<and> rc e = c \<longrightarrow>
      find_entry (entries db) k = Some e
      \<or> (\<exists>n. \<not> IsExpired ops c (clock n) \<and> insertedAt e = clock (Suc n))" for c
    using admitted by blast
  have rows: "case Read ops fs f of
           None \<Rightarrow> ?fs' f = None \<and> ls_entries ?s' = ls_entries ?s
         | Some c \<Rightarrow>
             if \<not> FromOurNetwork ops c then
               ?fs' f = fs f \<and> ls_entries ?s' = ls_entries ?s
               \<and> (\<forall>k e. find_entry (entries ?db') k = Some e \<and> rc e = c \<longrightarrow>
                     find_entry (entries db) k = Some e)
             else if IsExpired ops c (clock (ls_clock ?s)) then
               ?fs' f = None \<and> ls_entries ?s' = ls_entries ?s
               \<and> (\<forall>k e. find_entry (entries ?db') k = Some e \<and> rc e = c \<longrightarrow>
                     find_entry (entries db) k = Some e
                     \<or> (\<exists>n. \<not> IsExpired ops c (clock n) \<and> insertedAt e = clock (Suc n)))
             else if \<not> VerifySignature ops c then
               ?fs' f = None \<and> ls_entries ?s' = ls_entries ?s
               \<and> (\<forall>k e. find_entry (entries ?db') k = Some e \<and> rc e = c \<longrightarrow>
                     find_entry (entries db) k = Some e)
             else
               ls_entries ?s' =
                 emplace (pubkey c) (mk_Entry (clock (Suc (ls_clock ?s))) c) (ls_entries ?s)
               \<and> find_entry (entries ?db') (pubkey c) =
                   (case find_entry (ls_entries ?s) (pubkey c) of
                      None \<Rightarrow> Some \<lparr>rc = c, insertedAt = clock (Suc (ls_clock ?s))\<rparr>
                    | Some e \<Rightarrow> Some e)"
  proof (cases "Read ops fs f")
    case None
    then have "f \<in> ls_purge ?s'" and "ls_entries ?s' = ls_entries ?s"
      using regular ext by (simp_all add: load_visit_def)
    with None purged show ?thesis
      by simp
  next
    case (Some c)
    consider (foreign) "\<not> FromOurNetwork ops c"
      | (expired) "FromOurNetwork ops c" "IsExpired ops c (clock (ls_clock ?s))"
      | (forged) "FromOurNetwork ops c" "\<not> IsExpired ops c (clock (ls_clock ?s))"
          "\<not> VerifySignature ops c"
      | (valid) "FromOurNetwork ops c" "\<not> IsExpired ops c (clock (ls_clock ?s))"
          "VerifySignature ops c"
      by blast
    then show ?thesis
    proof cases
      case foreign
      then have "ls_entries ?s' = ls_entries ?s"
        using Some regular ext by (simp add: load_visit_def)
      moreover have "\<forall>k e. find_entry (entries ?db') k = Some e \<and> rc e = c \<longrightarrow>
          find_entry (entries db) k = Some e"
        using foreign by (intro rejected) simp
      ultimately show ?thesis
        using foreign Some kept [OF Some foreign] by simp
    next
      case expired
      then have "f \<in> ls_purge ?s'" and "ls_entries ?s' = ls_entries ?s"
        using Some regular ext by (simp_all add: load_visit_def)
      with expired Some purged stale [of c] show ?thesis
        by simp
    next
      case forged
      then have "f \<in> ls_purge ?s'" and "ls_entries ?s' = ls_entries ?s"
        using Some regular ext by (simp_all add: load_visit_def)
      moreover have "\<forall>k e. find_entry (entries ?db') k = Some e \<and> rc e = c \<longrightarrow>
          find_entry (entries db) k = Some e"
        using forged by (intro rejected) simp
      ultimately show ?thesis
        using forged Some purged by simp
    next
      case valid
      let ?e = "\<lparr>rc = c, insertedAt = clock (Suc (ls_clock ?s))\<rparr>"
      have step: "ls_entries ?s' = emplace (pubkey c) ?e (ls_entries ?s)"
        using valid Some regular ext by (simp add: load_visit_def mk_Entry_def)
      have "find_entry (ls_entries ?s') (pubkey c) =
          (case find_entry (ls_entries ?s) (pubkey c) of None \<Rightarrow> Some ?e | Some e \<Rightarrow> Some e)"
        unfolding step by (simp add: find_entry_emplace split: option.splits)
      then have "find_entry (entries ?db') (pubkey c) =
          (case find_entry (ls_entries ?s) (pubkey c) of None \<Rightarrow> Some ?e | Some e \<Rightarrow> Some e)"
        using table by (simp split: option.splits)
      with valid Some step show ?thesis
        by (simp add: mk_Entry_def)
    qed
  qed
  from rows admitted show ?thesis
    unfolding Let_def by (rule conjI)
qed

lemma sample_load_files:
  "load_files (list_dir sample_paths) sample_fs [''nodedb''] = sample_paths"
  by (simp add: load_files_def list_dir_def sample_paths_def sample_fs_def skiplist_subdirs_def
      path_append_def)

lemma twin_load_files: "load_files (list_dir twin_paths) twin_fs [''nodedb''] = twin_paths"
  by (simp add: load_files_def list_dir_def twin_paths_def twin_fs_def skiplist_subdirs_def
      path_append_def)

lemma sample_load_scan:
  "load_scan sample_ops (\<lambda>n. 100) sample_fs
     \<lparr>ls_entries = [], ls_purge = {}, ls_clock = 0\<rparr> sample_paths =
   \<lparr>ls_entries = [(9, \<lparr>rc = sample_rc 9 1 200, insertedAt = 100\<rparr>)],
    ls_purge = {[''nodedb'', ''0'', ''junk.signed''], [''nodedb'', ''2'', ''old.signed''],
                [''nodedb'', ''3'', ''bad.signed'']},
    ls_clock = 4\<rparr>"
  by (simp add: sample_paths_def load_scan_def load_visit_def sample_fs_def is_regular_file_def
      extension_def RC_FILE_EXT_def sample_ops_def sample_decode_def emplace_def find_entry_def
      mk_Entry_def sample_rc_def insert_commute)

theorem load_from_disk_decision_table_witness:
  "snd (load_from_disk sample_ops (list_dir sample_paths) (\<lambda>n. 100) sample_fs
          (empty_db [''nodedb''])) [''nodedb'', ''0'', ''junk.signed''] = None
   \<and> snd (load_from_disk sample_ops (list_dir sample_paths) (\<lambda>n. 100) sample_fs
          (empty_db [''nodedb''])) [''nodedb'', ''1'', ''far.signed''] =
       Some (RegularFile [6, 1, 0, 1, 200])
   \<and> snd (load_from_disk sample_ops (list_dir sample_paths) (\<lambda>n. 100) sample_fs
          (empty_db [''nodedb''])) [''nodedb'', ''2'', ''old.signed''] = None
   \<and> snd (load_from_disk sample_ops (list_dir sample_paths) (\<lambda>n. 100) sample_fs
          (empty_db [''nodedb''])) [''nodedb'', ''3'', ''bad.signed''] = None
   \<and> find_entry (entries (fst (load_from_disk sample_ops (list_dir sample_paths) (\<lambda>n. 100)
          sample_fs (empty_db [''nodedb''])))) 9 =
       Some \<lparr>rc = sample_rc 9 1 200, insertedAt = 100\<rparr>
   \<and> entries (fst (load_from_disk sample_ops (list_dir sample_paths) (\<lambda>n. 100)
          sample_fs (empty_db [''nodedb'']))) =
       [(9, \<lparr>rc = sample_rc 9 1 200, insertedAt = 100\<rparr>)]"
proof -
  let ?db = "empty_db [''nodedb''] :: sample NodeDB"
  let ?junk = "[''nodedb'', ''0'', ''junk.signed'']"
  let ?far = "[''nodedb'', ''1'', ''far.signed'']"
  let ?old = "[''nodedb'', ''2'', ''old.signed'']"
  let ?bad = "[''nodedb'', ''3'', ''bad.signed'']"
  let ?good = "[''nodedb'', ''a'', ''good.signed'']"
  note defs = load_scan_def load_visit_def sample_fs_def is_regular_file_def extension_def
    RC_FILE_EXT_def sample_ops_def sample_decode_def emplace_def find_entry_def mk_Entry_def
    sample_rc_def empty_db_def
  have root: "m_Root ?db \<noteq> []"
    by (simp add: empty_db_def)
  have files: "load_files (list_dir sample_paths) sample_fs (m_Root ?db) = sample_paths"
    by (simp add: empty_db_def sample_load_files)
  have regular: "is_regular_file sample_fs ?junk" "is_regular_file sample_fs ?far"
    "is_regular_file sample_fs ?old" "is_regular_file sample_fs ?bad"
    "is_regular_file sample_fs ?good"
    by (simp_all add: is_regular_file_def sample_fs_def)
  have ext: "extension ?junk = RC_FILE_EXT" "extension ?far = RC_FILE_EXT"
    "extension ?old = RC_FILE_EXT" "extension ?bad = RC_FILE_EXT"
    "extension ?good = RC_FILE_EXT"
    by (simp_all add: extension_def RC_FILE_EXT_def)
  have at_junk: "load_files (list_dir sample_paths) sample_fs (m_Root ?db) =
      [] @ ?junk # [?far, ?old, ?bad, ?good]"
    and at_far: "load_files (list_dir sample_paths) sample_fs (m_Root ?db) =
      [?junk] @ ?far # [?old, ?bad, ?good]"
    and at_old: "load_files (list_dir sample_paths) sample_fs (m_Root ?db) =
      [?junk, ?far] @ ?old # [?bad, ?good]"
    and at_bad: "load_files (list_dir sample_paths) sample_fs (m_Root ?db) =
      [?junk, ?far, ?old] @ ?bad # [?good]"
    and at_good: "load_files (list_dir sample_paths) sample_fs (m_Root ?db) =
      [?junk, ?far, ?old, ?bad] @ ?good # []"
    unfolding files by (simp_all add: sample_paths_def)
  have junk: "snd (load_from_disk sample_ops (list_dir sample_paths) (\<lambda>n. 100) sample_fs ?db)
      ?junk = None"
    using load_from_disk_decision_table [OF root at_junk regular(1) ext(1),
        where ops = sample_ops and clock = "\<lambda>n. 100", unfolded Let_def, THEN conjunct1]
    by (simp add: defs)
  have far: "snd (load_from_disk sample_ops (list_dir sample_paths) (\<lambda>n. 100) sample_fs ?db)
      ?far = Some (RegularFile [6, 1, 0, 1, 200])"
    using load_from_disk_decision_table [OF root at_far regular(2) ext(2),
        where ops = sample_ops and clock = "\<lambda>n. 100", unfolded Let_def, THEN conjunct1]
    by (simp add: defs)
  have old: "snd (load_from_disk sample_ops (list_dir sample_paths) (\<lambda>n. 100) sample_fs ?db)
      ?old = None"
    using load_from_disk_decision_table [OF root at_old regular(3) ext(3),
        where ops = sample_ops and clock = "\<lambda>n. 100", unfolded Let_def, THEN conjunct1]
    by (simp add: defs)
  have bad: "snd (load_from_disk sample_ops (list_dir sample_paths) (\<lambda>n. 100) sample_fs ?db)
      ?bad = None"
    using load_from_disk_decision_table [OF root at_bad regular(4) ext(4),
        where ops = sample_ops and clock = "\<lambda>n. 100", unfolded Let_def, THEN conjunct1]
    by (simp add: defs)
  have good: "find_entry (entries (fst (load_from_disk sample_ops (list_dir sample_paths)
      (\<lambda>n. 100) sample_fs ?db))) 9 = Some \<lparr>rc = sample_rc 9 1 200, insertedAt = 100\<rparr>"
    using load_from_disk_decision_table [OF root at_good regular(5) ext(5),
        where ops = sample_ops and clock = "\<lambda>n. 100", unfolded Let_def, THEN conjunct1]
    by (simp add: defs)
  have whole: "entries (fst (load_from_disk sample_ops (list_dir sample_paths) (\<lambda>n. 100)
      sample_fs ?db)) = [(9, \<lparr>rc = sample_rc 9 1 200, insertedAt = 100\<rparr>)]"
    by (simp add: load_from_disk_def empty_db_def sample_load_files sample_load_scan Let_def)
  from junk far old bad good whole show ?thesis
    by simp
qed

text \<open>
  The claim as stated admits every contact that passes the checks. With two valid files
  of one identity the contact of the first file visited is stored and the contact of the
  second is not: \<^verbatim>\<open>emplace\<close> inserts nothing under a key that is present.
\<close>

theorem load_from_disk_twin_counterexample:
  "Read sample_ops twin_fs [''nodedb'', ''0'', ''y.signed''] = Some (sample_rc 5 2 200)
   \<and> is_regular_file twin_fs [''nodedb'', ''0'', ''y.signed'']
   \<and> extension [''nodedb'', ''0'', ''y.signed''] = RC_FILE_EXT
   \<and> FromOurNetwork sample_ops (sample_rc 5 2 200)
   \<and> \<not> IsExpired sample_ops (sample_rc 5 2 200) 100
   \<and> VerifySignature sample_ops (sample_rc 5 2 200)
   \<and> load_files (list_dir twin_paths) twin_fs [''nodedb''] =
       [[''nodedb'', ''0'', ''x.signed''], [''nodedb'', ''0'', ''y.signed'']]
   \<and> find_entry (entries (fst (load_from_disk sample_ops (list_dir twin_paths) (\<lambda>n. 100)
          twin_fs (empty_db [''nodedb''])))) 5 =
       Some \<lparr>rc = sample_rc 5 1 200, insertedAt = 100\<rparr>
   \<and> sample_rc 5 1 200 \<noteq> sample_rc 5 2 200"
proof -
  have scan: "load_scan sample_ops (\<lambda>n. 100) twin_fs
      \<lparr>ls_entries = [], ls_purge = {}, ls_clock = 0\<rparr> twin_paths =
      \<lparr>ls_entries = [(5, \<lparr>rc = sample_rc 5 1 200, insertedAt = 100\<rparr>)], ls_purge = {},
       ls_clock = 4\<rparr>"
    by (simp add: twin_paths_def load_scan_def load_visit_def twin_fs_def is_regular_file_def
        extension_def RC_FILE_EXT_def sample_ops_def sample_decode_def emplace_def
        find_entry_def mk_Entry_def sample_rc_def)
  have stored: "find_entry (entries (fst (load_from_disk sample_ops (list_dir twin_paths)
      (\<lambda>n. 100) twin_fs (empty_db [''nodedb''])))) 5 =
      Some \<lparr>rc = sample_rc 5 1 200, insertedAt = 100\<rparr>"
    by (simp add: load_from_disk_def twin_load_files empty_db_def scan find_entry_def)
  have decoded: "Read sample_ops twin_fs [''nodedb'', ''0'', ''y.signed''] = Some (sample_rc 5 2 200)
      \<and> is_regular_file twin_fs [''nodedb'', ''0'', ''y.signed'']
      \<and> extension [''nodedb'', ''0'', ''y.signed''] = RC_FILE_EXT"
    by (simp add: sample_ops_def twin_fs_def sample_decode_def sample_rc_def
        is_regular_file_def extension_def RC_FILE_EXT_def)
  have valid: "FromOurNetwork sample_ops (sample_rc 5 2 200)
      \<and> \<not> IsExpired sample_ops (sample_rc 5 2 200) 100
      \<and> VerifySignature sample_ops (sample_rc 5 2 200)
      \<and> sample_rc 5 1 200 \<noteq> sample_rc 5 2 200"
    by (simp add: sample_ops_def sample_rc_def)
  from stored decoded valid twin_load_files show ?thesis
    by (simp add: twin_paths_def)
qed

end
